theory Spec2Isabelle
  imports Complex_Main "HOL-Library.Char_ord" "HOL-Library.List_Lexorder"
begin

section \<open>Exceptions and strings\<close>

text \<open>
  The exceptions that \<^verbatim>\<open>metapool/count.py\<close> raises, each carrying its message;
  \<open>Exception\<close> stands for any other exception class a library call may raise.
  \<open>IOError\<close> is Python's alias of \<open>OSError\<close>. Characters are code points below
  256; on that range Python's \<^verbatim>\<open>\d\<close> is exactly the ten ASCII digits and
  \<^verbatim>\<open>.\<close> is every character but the line feed. The leading underscore of
  \<^verbatim>\<open>_extract_name_and_lane\<close>, \<^verbatim>\<open>_parsefier\<close> and the other private
  functions is dropped, since an identifier cannot start with one.
\<close>

datatype error = ValueError string | IOError string | KeyError string | Exception string

datatype warning = UserWarning string

definition apostrophe :: char where
  "apostrophe = CHR 0x27"

definition is_digit :: "char \<Rightarrow> bool" where
  "is_digit c = (c \<in> set ''0123456789'')"

definition not_newline :: "char \<Rightarrow> bool" where
  "not_newline c = (c \<noteq> CHR 0x0A)"

section \<open>Regular expressions as backtracking matchers\<close>

text \<open>
  A greedy quantifier \<^verbatim>\<open>c{lo,hi}\<close> over a character class offers the engine its
  candidate splits longest first; \<^verbatim>\<open>re.match\<close> returns the first complete match in
  that order. Each piece of a pattern maps the remaining input to the list of
  alternatives in the order the engine tries them.
\<close>

definition greedy_splits ::
  "(char \<Rightarrow> bool) \<Rightarrow> nat \<Rightarrow> nat \<Rightarrow> string \<Rightarrow> (string \<times> string) list" where
  "greedy_splits p lo hi s =
     map (\<lambda>k. (take k s, drop k s)) (rev [lo ..< Suc (min hi (length (takeWhile p s)))])"

definition lit :: "string \<Rightarrow> string \<Rightarrow> string list" where
  "lit l s = (if take (length l) s = l then [drop (length l) s] else [])"

definition char_class :: "(char \<Rightarrow> bool) \<Rightarrow> string \<Rightarrow> (char \<times> string) list" where
  "char_class p s = (case s of [] \<Rightarrow> [] | c # r \<Rightarrow> if p c then [(c, r)] else [])"

definition first_match :: "'a list \<Rightarrow> 'a option" where
  "first_match ms = (case ms of [] \<Rightarrow> None | m # _ \<Rightarrow> Some m)"

text \<open>
  \<^verbatim>\<open>SAMPLE_PATTERN = re.compile(r'(.*)_(S\d{1,4})_(L\d{1,3})_([RI][12]).*')\<close>:
  every way the pattern matches a prefix of the input, with the four groups.
\<close>

definition SAMPLE_PATTERN :: "string \<Rightarrow> (string \<times> string \<times> string \<times> string) list" where
  "SAMPLE_PATTERN s =
     [(name, CHR ''S'' # cell, CHR ''L'' # lane, [ri, d]).
        (name, r1) \<leftarrow> greedy_splits not_newline 0 (length s) s,
        r2 \<leftarrow> lit ''_S'' r1,
        (cell, r3) \<leftarrow> greedy_splits is_digit 1 4 r2,
        r4 \<leftarrow> lit ''_L'' r3,
        (lane, r5) \<leftarrow> greedy_splits is_digit 1 3 r4,
        r6 \<leftarrow> lit ''_'' r5,
        (ri, r7) \<leftarrow> char_class (\<lambda>c. c \<in> set ''RI'') r6,
        (d, r8) \<leftarrow> char_class (\<lambda>c. c \<in> set ''12'') r7,
        rest \<leftarrow> greedy_splits not_newline 0 (length r8) r8]"

section \<open>Filename identity parser\<close>

definition lstrip :: "char \<Rightarrow> string \<Rightarrow> string" where
  "lstrip c s = dropWhile (\<lambda>x. x = c) s"

definition extract_name_and_lane :: "string \<Rightarrow> error + (string \<times> string)" where
  "extract_name_and_lane filename =
     (case first_match (SAMPLE_PATTERN filename) of
        None \<Rightarrow> Inl (ValueError (''Unrecognized filename pattern '' @ filename))
      | Some (name, _, lane, _) \<Rightarrow> Inr (name, lstrip (CHR ''0'') (drop 1 lane)))"

text \<open>
  The convention \<^verbatim>\<open><name>_S<cellnum>_L<lane>_<R|I><1|2>...\<close> as the specification
  words it: a decomposition of the filename into its parts.
\<close>

definition convention_parts ::
  "string \<Rightarrow> string \<Rightarrow> string \<Rightarrow> string \<Rightarrow> char \<Rightarrow> char \<Rightarrow> string \<Rightarrow> bool" where
  "convention_parts filename name cell lane ri d rest =
     (filename = name @ ''_S'' @ cell @ ''_L'' @ lane @ ''_'' @ [ri, d] @ rest \<and>
      list_all not_newline name \<and>
      list_all is_digit cell \<and> 1 \<le> length cell \<and> length cell \<le> 4 \<and>
      list_all is_digit lane \<and> 1 \<le> length lane \<and> length lane \<le> 3 \<and>
      ri \<in> set ''RI'' \<and> d \<in> set ''12'')"

definition follows_convention :: "string \<Rightarrow> bool" where
  "follows_convention filename =
     (\<exists>name cell lane ri d rest. convention_parts filename name cell lane ri d rest)"

section \<open>The run directory and the libraries\<close>

text \<open>
  What the code reads from outside itself: \<^verbatim>\<open>glob\<close>, \<^verbatim>\<open>os.path.exists\<close>,
  \<^verbatim>\<open>os.path.abspath\<close>, \<^verbatim>\<open>open(path).read()\<close>, \<^verbatim>\<open>json.load\<close> on a
  trimming report and on \<^verbatim>\<open>Stats.json\<close>, \<^verbatim>\<open>pandas.read_csv\<close> on
  \<^verbatim>\<open>Demultiplex_Stats.csv\<close>, and \<^verbatim>\<open>skbio.io.read\<close> consumed by
  \<^verbatim>\<open>sum(1 for sequence in sequences)\<close> under a quality variant. A missing key of
  a JSON object is \<open>None\<close>.
\<close>

record fastp_after = total_reads :: "int option"

record fastp_summary = after_filtering :: "fastp_after option"

record fastp_stats = summary :: "fastp_summary option"

record demux_result =
  SampleId :: string
  NumberReads :: int

record lane_result =
  DemuxResults :: "demux_result list option"
  LaneNumber :: "int option"

record stats_json = ConversionResults :: "lane_result list option"

text \<open>A row of \<^verbatim>\<open>Demultiplex_Stats.csv\<close>: the columns SampleID, Lane and # Reads.\<close>

type_synonym csv_row = "string \<times> int \<times> int"

record env =
  fs_glob :: "string \<Rightarrow> string list"
  fs_exists :: "string \<Rightarrow> bool"
  fs_abspath :: "string \<Rightarrow> string"
  fs_read :: "string \<Rightarrow> error + string"
  fs_load_fastp :: "string \<Rightarrow> error + fastp_stats"
  fs_load_stats :: "string \<Rightarrow> error + stats_json"
  fs_read_csv :: "string \<Rightarrow> error + csv_row list"
  skb_read :: "string \<Rightarrow> string \<Rightarrow> error + nat"

text \<open>The sample sheet: one record per sample; any other metadata is a mapping file.\<close>

record sample =
  Sample_ID :: string
  Sample_Project :: string
  Lane :: string

datatype metadata = KLSampleSheet "sample list" | MappingFile

section \<open>Paths and strings of the standard library\<close>

text \<open>\<^verbatim>\<open>posixpath.join(a, *p)\<close>.\<close>

fun join :: "string \<Rightarrow> string list \<Rightarrow> string" where
  "join a [] = a"
| "join a (b # bs) =
     join (if take 1 b = ''/'' then b
           else if a = [] \<or> last a = CHR ''/'' then a @ b
           else a @ ''/'' @ b) bs"

definition basename :: "string \<Rightarrow> string" where
  "basename p = rev (takeWhile (\<lambda>c. c \<noteq> CHR ''/'') (rev p))"

definition zfill :: "nat \<Rightarrow> string \<Rightarrow> string" where
  "zfill width s =
     (if width \<le> length s then s
      else case s of
        [] \<Rightarrow> replicate width (CHR ''0'')
      | c # r \<Rightarrow>
          if c = CHR ''+'' \<or> c = CHR ''-''
          then c # replicate (width - length s) (CHR ''0'') @ r
          else replicate (width - length s) (CHR ''0'') @ s)"

fun str_join :: "string \<Rightarrow> string list \<Rightarrow> string" where
  "str_join sep [] = []"
| "str_join sep [x] = x"
| "str_join sep (x # y # ys) = x @ sep @ str_join sep (y # ys)"

text \<open>\<^verbatim>\<open>str\<close> and \<^verbatim>\<open>int\<close> on decimal numerals.\<close>

definition digit_char :: "nat \<Rightarrow> char" where
  "digit_char n = char_of (48 + n)"

fun str_nat :: "nat \<Rightarrow> string" where
  "str_nat n = (if n < 10 then [digit_char n] else str_nat (n div 10) @ [digit_char (n mod 10)])"

declare str_nat.simps [simp del]

definition str_int :: "int \<Rightarrow> string" where
  "str_int i = (if i < 0 then CHR ''-'' # str_nat (nat (- i)) else str_nat (nat i))"

definition digit_val :: "char \<Rightarrow> nat" where
  "digit_val c = of_char c - 48"

definition int_of_digits :: "string \<Rightarrow> nat" where
  "int_of_digits ds = foldl (\<lambda>n c. 10 * n + digit_val c) 0 ds"

section \<open>Format parsers\<close>

text \<open>
  \<^verbatim>\<open>_parse_fastp_counts\<close>: the three keys are checked, then
  \<^verbatim>\<open>summary.after_filtering.total_reads\<close> is returned as an integer.
\<close>

definition parse_fastp_counts :: "env \<Rightarrow> string \<Rightarrow> error + rat" where
  "parse_fastp_counts e path =
     (case fs_load_fastp e path of
        Inl err \<Rightarrow> Inl err
      | Inr stats \<Rightarrow>
          (case summary stats of
             None \<Rightarrow> Inl (ValueError (''The fastp log for '' @ path @ '' is malformed''))
           | Some sm \<Rightarrow>
               (case after_filtering sm of
                  None \<Rightarrow> Inl (ValueError (''The fastp log for '' @ path @ '' is malformed''))
                | Some af \<Rightarrow>
                    (case total_reads af of
                       None \<Rightarrow>
                         Inl (ValueError (''The fastp log for '' @ path @ '' is malformed''))
                     | Some n \<Rightarrow> Inr (of_int n)))))"

text \<open>
  \<^verbatim>\<open>SAMTOOLS_PATTERN = re.compile(r'\[.*\] processed (\d+) reads', flags=re.MULTILINE)\<close>:
  every way the pattern matches a prefix of the input, with its one group. The pattern has
  no \<^verbatim>\<open>^\<close> or \<^verbatim>\<open>$\<close>, so the flag changes nothing.
\<close>

definition SAMTOOLS_PATTERN :: "string \<Rightarrow> string list" where
  "SAMTOOLS_PATTERN s =
     [ds.
        r1 \<leftarrow> lit ''['' s,
        (pre, r2) \<leftarrow> greedy_splits not_newline 0 (length r1) r1,
        r3 \<leftarrow> lit ''] processed '' r2,
        (ds, r4) \<leftarrow> greedy_splits is_digit 1 (length r3) r3,
        r5 \<leftarrow> lit '' reads'' r4]"

text \<open>
  \<^verbatim>\<open>_parse_samtools_counts\<close> returns \<^verbatim>\<open>int(matches.groups()[0]) / 2.0\<close>.
  Counts are kept as exact rationals: a float64 holds every integer up to \<open>2^53\<close> and
  its half exactly; the rounding and the overflow of larger integers are not modelled.
\<close>

definition parse_samtools_counts :: "env \<Rightarrow> string \<Rightarrow> error + rat" where
  "parse_samtools_counts e path =
     (case fs_read e path of
        Inl err \<Rightarrow> Inl err
      | Inr content \<Rightarrow>
          (case first_match (SAMTOOLS_PATTERN content) of
             None \<Rightarrow> Inl (ValueError (''The samtools log for '' @ path @ '' is malformed''))
           | Some ds \<Rightarrow> Inr (of_nat (int_of_digits ds) / 2)))"



section \<open>Log locator\<close>

text \<open>
  A row of the table \<^verbatim>\<open>out\<close>: the columns Sample_ID, Lane, Sample_Project and path.
\<close>

type_synonym log_row = "string \<times> string \<times> string \<times> string"

definition row_key :: "log_row \<Rightarrow> string \<times> string" where
  "row_key r = (case r of (sid, lane, project, path) \<Rightarrow> (sid, lane))"

definition row_path :: "log_row \<Rightarrow> string" where
  "row_path r = (case r of (sid, lane, project, path) \<Rightarrow> path)"

text \<open>A count table: the index (Sample_ID, Lane) and one column.\<close>

type_synonym count_table = "((string \<times> string) \<times> rat) list"

text \<open>
  The sets \<^verbatim>\<open>projects\<close> and \<^verbatim>\<open>expected\<close> are lists without repetition;
  Python fixes no iteration order for a set, and the sheet's order stands for it.
\<close>

definition projects_of :: "sample list \<Rightarrow> (string \<times> string) list" where
  "projects_of samples = remdups (map (\<lambda>s. (Sample_Project s, Lane s)) samples)"

definition expected_of :: "sample list \<Rightarrow> string list" where
  "expected_of samples = remdups (map Sample_ID samples)"

text \<open>The inner loop \<^verbatim>\<open>for log in logs\<close> and the outer loop over the projects.\<close>

fun log_rows :: "string \<Rightarrow> string list \<Rightarrow> error + log_row list" where
  "log_rows project [] = Inr []"
| "log_rows project (path # logs) =
     (case extract_name_and_lane (basename path) of
        Inl err \<Rightarrow> Inl err
      | Inr (name, lane) \<Rightarrow>
          (case log_rows project logs of
             Inl err \<Rightarrow> Inl err
           | Inr rows \<Rightarrow> Inr ((name, lane, project, path) # rows)))"

fun locate_logs ::
  "env \<Rightarrow> string \<Rightarrow> string \<Rightarrow> string \<Rightarrow> (string \<times> string) list \<Rightarrow> error + log_row list" where
  "locate_logs e run_dir subdir suffix [] = Inr []"
| "locate_logs e run_dir subdir suffix ((project, lane) # ps) =
     (case log_rows project
             (fs_glob e (join run_dir
                [project, subdir, ''*_L'' @ zfill 3 lane @ ''_R1_001'' @ suffix])) of
        Inl err \<Rightarrow> Inl err
      | Inr rows \<Rightarrow>
          (case locate_logs e run_dir subdir suffix ps of
             Inl err \<Rightarrow> Inl err
           | Inr others \<Rightarrow> Inr (rows @ others)))"

text \<open>
  \<^verbatim>\<open>DataFrame.duplicated(subset=...)\<close>: a row is flagged when its key occurred in an
  earlier row; \<^verbatim>\<open>out[dups]\<close> keeps the flagged rows.
\<close>

fun duplicated_from :: "'k list \<Rightarrow> 'k list \<Rightarrow> bool list" where
  "duplicated_from seen [] = []"
| "duplicated_from seen (k # ks) = (k \<in> set seen) # duplicated_from (k # seen) ks"

definition duplicated :: "'k list \<Rightarrow> bool list" where
  "duplicated ks = duplicated_from [] ks"

definition select_rows :: "bool list \<Rightarrow> 'a list \<Rightarrow> 'a list" where
  "select_rows flags rows = map snd (filter fst (zip flags rows))"

text \<open>\<^verbatim>\<open>expected > found\<close> on sets: a proper superset.\<close>

definition proper_superset :: "'a list \<Rightarrow> 'a list \<Rightarrow> bool" where
  "proper_superset xs ys = ((\<forall>y \<in> set ys. y \<in> set xs) \<and> (\<exists>x \<in> set xs. x \<notin> set ys))"

definition set_difference :: "'a list \<Rightarrow> 'a list \<Rightarrow> 'a list" where
  "set_difference xs ys = filter (\<lambda>x. x \<notin> set ys) xs"

text \<open>\<^verbatim>\<open>out.path.apply(funk)\<close>: the parser runs on each path in row order.\<close>

fun apply_funk :: "(string \<Rightarrow> error + rat) \<Rightarrow> log_row list \<Rightarrow> error + count_table" where
  "apply_funk funk [] = Inr []"
| "apply_funk funk (r # rs) =
     (case funk (row_path r) of
        Inl err \<Rightarrow> Inl err
      | Inr v \<Rightarrow>
          (case apply_funk funk rs of
             Inl err \<Rightarrow> Inl err
           | Inr t \<Rightarrow> Inr ((row_key r, v) # t)))"

text \<open>\<^verbatim>\<open>set_index(['Sample_ID', 'Lane'], verify_integrity=True)\<close>.\<close>

definition set_index :: "(('k \<times> 'v) list) \<Rightarrow> error + ('k \<times> 'v) list" where
  "set_index t =
     (if distinct (map fst t) then Inr t else Inl (ValueError ''Index has duplicate keys''))"

definition duplicate_message :: "log_row list \<Rightarrow> string" where
  "duplicate_message rows =
     ''Multiple matches found for the same samples in the same lane, only one match is expected: ''
       @ str_join '', '' (map (\<lambda>r. fst (row_key r) @ '' in lane '' @ snd (row_key r)) rows)"

definition missing_message :: "string \<Rightarrow> string list \<Rightarrow> string" where
  "missing_message name ids = ''No '' @ name @ '' log found for these samples: '' @ str_join '', '' ids"

text \<open>
  \<^verbatim>\<open>_parsefier\<close>: the result is the list of the warnings that the function emits
  with \<^verbatim>\<open>warnings.warn\<close>, then the exception raised or the table returned.
\<close>

definition parsefier ::
  "env \<Rightarrow> string \<Rightarrow> metadata \<Rightarrow> string \<Rightarrow> string \<Rightarrow> string \<Rightarrow> (string \<Rightarrow> error + rat)
     \<Rightarrow> warning list \<times> (error + count_table)" where
  "parsefier e run_dir md subdir suffix name funk =
     (case md of
        MappingFile \<Rightarrow> ([], Inl (ValueError ''counts not implemented for amplicon''))
      | KLSampleSheet samples \<Rightarrow>
          (case locate_logs e run_dir subdir suffix (projects_of samples) of
             Inl err \<Rightarrow> ([], Inl err)
           | Inr out0 \<Rightarrow>
               (let expected = expected_of samples;
                    found = remdups (map (\<lambda>r. fst (row_key r)) out0);
                    out = filter (\<lambda>r. fst (row_key r) \<in> set expected) out0;
                    dups = duplicated (map row_key out)
                in if (\<exists>d \<in> set dups. d)
                   then ([], Inl (ValueError (duplicate_message (select_rows dups out))))
                   else
                     (if proper_superset expected found
                      then [UserWarning (missing_message name (set_difference expected found))]
                      else [],
                      case apply_funk funk out of
                        Inl err \<Rightarrow> Inl err
                      | Inr t \<Rightarrow> set_index t))))"

text \<open>
  The rows that \<^verbatim>\<open>out[out['Sample_ID'].isin(expected)]\<close> keeps, and the set
  \<^verbatim>\<open>found\<close>, as functions of the located rows.
\<close>

definition retained :: "sample list \<Rightarrow> log_row list \<Rightarrow> log_row list" where
  "retained samples out0 = filter (\<lambda>r. fst (row_key r) \<in> set (expected_of samples)) out0"

definition found_ids :: "log_row list \<Rightarrow> string list" where
  "found_ids out0 = remdups (map (\<lambda>r. fst (row_key r)) out0)"

section \<open>Stage aggregators\<close>

text \<open>\<^verbatim>\<open>_safe_get\<close> on a key of a JSON object.\<close>

definition safe_get :: "'a option \<Rightarrow> string \<Rightarrow> error + 'a" where
  "safe_get field key =
     (case field of
        None \<Rightarrow> Inl (KeyError (''bcl stats file is missing '' @ key @ '' attribute''))
      | Some v \<Rightarrow> Inr v)"

text \<open>
  \<^verbatim>\<open>_bcl2fastq_counts\<close>: one frame per lane block, each row with the block's lane
  as a string; the rows are Sample_ID, Lane and raw_reads_r1r2.
\<close>

type_synonym demux_row = "string \<times> string \<times> int"

fun lane_frames :: "lane_result list \<Rightarrow> error + demux_row list list" where
  "lane_frames [] = Inr []"
| "lane_frames (lane # lanes) =
     (case safe_get (DemuxResults lane) ''DemuxResults'' of
        Inl err \<Rightarrow> Inl err
      | Inr results \<Rightarrow>
          (case safe_get (LaneNumber lane) ''LaneNumber'' of
             Inl err \<Rightarrow> Inl err
           | Inr n \<Rightarrow>
               (case lane_frames lanes of
                  Inl err \<Rightarrow> Inl err
                | Inr frames \<Rightarrow>
                    Inr (map (\<lambda>r. (SampleId r, str_int n, NumberReads r)) results # frames))))"

definition index_rows :: "demux_row list \<Rightarrow> error + count_table" where
  "index_rows rows = set_index (map (\<lambda>(sid, lane, n). ((sid, lane), of_int n)) rows)"

text \<open>
  \<^verbatim>\<open>pd.concat\<close> refuses an empty list of frames, and selecting the three columns
  fails when no frame has a row, since the columns SampleId and NumberReads are then absent.
\<close>

definition bcl2fastq_counts_json :: "env \<Rightarrow> string \<Rightarrow> error + count_table" where
  "bcl2fastq_counts_json e path =
     (case fs_load_stats e path of
        Inl err \<Rightarrow> Inl err
      | Inr contents \<Rightarrow>
          (case safe_get (ConversionResults contents) ''ConversionResults'' of
             Inl err \<Rightarrow> Inl err
           | Inr lanes \<Rightarrow>
               (case lane_frames lanes of
                  Inl err \<Rightarrow> Inl err
                | Inr frames \<Rightarrow>
                    if frames = [] then Inl (ValueError ''No objects to concatenate'')
                    else if concat frames = []
                    then Inl (KeyError ''[Sample_ID, raw_reads_r1r2] not in index'')
                    else index_rows (concat frames))))"

text \<open>
  \<^verbatim>\<open>_bclconvert_counts\<close>: the reads are doubled, the rows of the Undetermined
  pseudo-sample are dropped, the lane becomes a string.
\<close>

definition bclconvert_counts :: "env \<Rightarrow> string \<Rightarrow> error + count_table" where
  "bclconvert_counts e path =
     (case fs_read_csv e path of
        Inl err \<Rightarrow> Inl err
      | Inr df \<Rightarrow>
          index_rows
            (map (\<lambda>(sid, lane, reads). (sid, str_int lane, reads * 2))
               (filter (\<lambda>(sid, lane, reads). sid \<noteq> ''Undetermined'') df)))"

definition bcl2fastq_counts :: "env \<Rightarrow> string \<Rightarrow> metadata \<Rightarrow> error + count_table" where
  "bcl2fastq_counts e run_dir sample_sheet =
     (let bcl2fastq_path = join (fs_abspath e run_dir) [''Stats/Stats.json''];
          bclconvert_path = join (fs_abspath e run_dir) [''Reports/Demultiplex_Stats.csv'']
      in if fs_exists e bcl2fastq_path
         then if fs_exists e bclconvert_path
              then Inl (IOError (''both '' @ [apostrophe] @ bcl2fastq_path @ [apostrophe]
                         @ '' and '' @ [apostrophe] @ bclconvert_path @ [apostrophe] @ '' exist''))
              else bcl2fastq_counts_json e bcl2fastq_path
         else if fs_exists e bclconvert_path
         then bclconvert_counts e bclconvert_path
         else Inl (IOError (''Cannot find Stats.json '' @ [apostrophe] @ bcl2fastq_path
                    @ [apostrophe] @ '' or Demultiplex_Stats.csv '' @ [apostrophe]
                    @ bclconvert_path @ [apostrophe] @ '' for this run'')))"

text \<open>The two fixed report paths that \<^verbatim>\<open>bcl2fastq_counts\<close> probes.\<close>

definition stats_path :: "env \<Rightarrow> string \<Rightarrow> string" where
  "stats_path e run_dir = join (fs_abspath e run_dir) [''Stats/Stats.json'']"

definition demultiplex_stats_path :: "env \<Rightarrow> string \<Rightarrow> string" where
  "demultiplex_stats_path e run_dir = join (fs_abspath e run_dir) [''Reports/Demultiplex_Stats.csv'']"

definition fastp_counts :: "env \<Rightarrow> string \<Rightarrow> metadata \<Rightarrow> warning list \<times> (error + count_table)" where
  "fastp_counts e run_dir md =
     parsefier e run_dir md ''json'' ''.json'' ''total_biological_reads_r1r2''
       (parse_fastp_counts e)"

definition minimap2_counts :: "env \<Rightarrow> string \<Rightarrow> metadata \<Rightarrow> warning list \<times> (error + count_table)" where
  "minimap2_counts e run_dir md =
     parsefier e run_dir md ''samtools'' ''.log'' ''non_host_reads'' (parse_samtools_counts e)"

section \<open>Direct sequence counter\<close>


definition variants :: "string list" where
  "variants = [''illumina1.8'', ''illumina1.3'', ''sanger'']"

text \<open>
  The loop of \<^verbatim>\<open>count_sequences_in_fastq\<close>: a \<^verbatim>\<open>ValueError\<close> moves on to
  the next variant, any other exception leaves the function.
\<close>

fun try_variants :: "env \<Rightarrow> string \<Rightarrow> string list \<Rightarrow> error + nat" where
  "try_variants e file_path [] =
     Inl (ValueError ([apostrophe] @ file_path @ '' could not be opened''))"
| "try_variants e file_path (variant # vs) =
     (case skb_read e file_path variant of
        Inr n \<Rightarrow> Inr n
      | Inl (ValueError msg) \<Rightarrow> try_variants e file_path vs
      | Inl err \<Rightarrow> Inl err)"

definition count_sequences_in_fastq :: "env \<Rightarrow> string \<Rightarrow> error + nat" where
  "count_sequences_in_fastq e file_path = try_variants e file_path variants"

section \<open>Direct counts\<close>

text \<open>
  \<^verbatim>\<open>reg = r"^(.*)_S\d+_L\d\d\d_R\d_\d\d\d.trimmed.fastq.gz$"\<close>: every way the
  pattern matches, with its one group. The dots before the extensions are unescaped, and
  \<^verbatim>\<open>$\<close> also matches before a final line feed.
\<close>

definition at_end :: "string \<Rightarrow> unit list" where
  "at_end s = (if s = [] \<or> s = [CHR 0x0A] then [()] else [])"

definition fastq_reg :: "string \<Rightarrow> string list" where
  "fastq_reg s =
     [name.
        (name, r1) \<leftarrow> greedy_splits not_newline 0 (length s) s,
        r2 \<leftarrow> lit ''_S'' r1,
        (cell, r3) \<leftarrow> greedy_splits is_digit 1 (length r2) r2,
        r4 \<leftarrow> lit ''_L'' r3,
        (l1, r5) \<leftarrow> char_class is_digit r4,
        (l2, r6) \<leftarrow> char_class is_digit r5,
        (l3, r7) \<leftarrow> char_class is_digit r6,
        r8 \<leftarrow> lit ''_R'' r7,
        (d, r9) \<leftarrow> char_class is_digit r8,
        r10 \<leftarrow> lit ''_'' r9,
        (n1, r11) \<leftarrow> char_class is_digit r10,
        (n2, r12) \<leftarrow> char_class is_digit r11,
        (n3, r13) \<leftarrow> char_class is_digit r12,
        (dot1, r14) \<leftarrow> char_class not_newline r13,
        r15 \<leftarrow> lit ''trimmed'' r14,
        (dot2, r16) \<leftarrow> char_class not_newline r15,
        r17 \<leftarrow> lit ''fastq'' r16,
        (dot3, r18) \<leftarrow> char_class not_newline r17,
        r19 \<leftarrow> lit ''gz'' r18,
        u \<leftarrow> at_end r19]"

text \<open>\<^verbatim>\<open>zip(fp_iter, fp_iter)\<close> over one iterator: consecutive pairs.\<close>

fun zip_pairs :: "'a list \<Rightarrow> ('a \<times> 'a) list" where
  "zip_pairs (r1 # r2 # rest) = (r1, r2) # zip_pairs rest"
| "zip_pairs [r1] = []"
| "zip_pairs [] = []"

type_synonym direct_row = "string \<times> string \<times> rat"

fun pair_rows :: "env \<Rightarrow> string \<Rightarrow> (string \<times> string) list \<Rightarrow> error + direct_row list" where
  "pair_rows e lane [] = Inr []"
| "pair_rows e lane ((r1, r2) # ps) =
     (case (first_match (fastq_reg (basename r1)), first_match (fastq_reg (basename r2))) of
        (Some m_r1, Some m_r2) \<Rightarrow>
          if m_r1 \<noteq> m_r2
          then Inl (ValueError (''a matching sample-id could not be extracted from ''
                      @ r1 @ '' and '' @ r2))
          else
            (case count_sequences_in_fastq e r1 of
               Inl err \<Rightarrow> Inl err
             | Inr r1_counts \<Rightarrow>
                 (case count_sequences_in_fastq e r2 of
                    Inl err \<Rightarrow> Inl err
                  | Inr r2_counts \<Rightarrow>
                      (case pair_rows e lane ps of
                         Inl err \<Rightarrow> Inl err
                       | Inr rows \<Rightarrow> Inr ((m_r1, lane, of_nat (r1_counts + r2_counts)) # rows))))
      | _ \<Rightarrow>
          Inl (ValueError (''a sample-id could not be extracted from '' @ r1 @ '' or '' @ r2)))"

text \<open>
  The choice of the subdirectory tests \<^verbatim>\<open>join(run_dir, 'filtered_sequences')\<close> and
  \<^verbatim>\<open>join(run_dir, 'trimmed_sequences')\<close> as strings: a non-empty string is true.
\<close>

definition choose_subdir :: "string \<Rightarrow> string \<Rightarrow> error + string" where
  "choose_subdir run_dir project =
     (if join run_dir [''filtered_sequences''] \<noteq> []
      then Inr (join run_dir [project, ''filtered_sequences''])
      else if join run_dir [''trimmed_sequences''] \<noteq> []
      then Inr (join run_dir [project, ''trimmed_sequences''])
      else Inl (ValueError ([apostrophe] @ ''filtered_sequences'' @ [apostrophe] @ '', ''
                  @ [apostrophe] @ ''trimmed_sequences'' @ [apostrophe]
                  @ '' directories do not exist'')))"

definition fastq_glob :: "string \<Rightarrow> string \<Rightarrow> string" where
  "fastq_glob subdir lane = join subdir [''*_L'' @ zfill 3 lane @ ''_R?_001.trimmed.fastq.gz'']"

fun direct_rows :: "env \<Rightarrow> string \<Rightarrow> (string \<times> string) list \<Rightarrow> error + direct_row list" where
  "direct_rows e run_dir [] = Inr []"
| "direct_rows e run_dir ((project, lane) # ps) =
     (case choose_subdir run_dir project of
        Inl err \<Rightarrow> Inl err
      | Inr subdir \<Rightarrow>
          (case pair_rows e lane (zip_pairs (sort (fs_glob e (fastq_glob subdir lane)))) of
             Inl err \<Rightarrow> Inl err
           | Inr rows \<Rightarrow>
               (case direct_rows e run_dir ps of
                  Inl err \<Rightarrow> Inl err
                | Inr others \<Rightarrow> Inr (rows @ others))))"

definition direct_sequence_counts :: "env \<Rightarrow> string \<Rightarrow> metadata \<Rightarrow> error + count_table" where
  "direct_sequence_counts e run_dir md =
     (case md of
        MappingFile \<Rightarrow> Inl (ValueError ''counts not implemented for amplicon'')
      | KLSampleSheet samples \<Rightarrow>
          (case direct_rows e run_dir (projects_of samples) of
             Inl err \<Rightarrow> Inl err
           | Inr rows \<Rightarrow> set_index (map (\<lambda>(sid, lane, n). ((sid, lane), n)) rows)))"

section \<open>Run aggregator\<close>

text \<open>
  A float64 cell: a finite value, an infinity or NaN, which is also how a missing cell of
  a join reads. Finite values are exact rationals and the zero has no sign (no count is a
  negative zero). \<^verbatim>\<open>fillna\<close> replaces NaN and nothing else.
\<close>

datatype float64 = Finite rat | PInf | NInf | NaN

datatype cell = Float float64 | Str string

fun truediv :: "float64 \<Rightarrow> float64 \<Rightarrow> float64" where
  "truediv NaN y = NaN"
| "truediv x NaN = NaN"
| "truediv (Finite a) (Finite b) =
     (if b \<noteq> 0 then Finite (a / b)
      else if a = 0 then NaN else if 0 < a then PInf else NInf)"
| "truediv (Finite a) PInf = Finite 0"
| "truediv (Finite a) NInf = Finite 0"
| "truediv PInf (Finite b) = (if 0 \<le> b then PInf else NInf)"
| "truediv NInf (Finite b) = (if 0 \<le> b then NInf else PInf)"
| "truediv PInf PInf = NaN"
| "truediv PInf NInf = NaN"
| "truediv NInf PInf = NaN"
| "truediv NInf NInf = NaN"

definition fillna :: "string \<Rightarrow> float64 \<Rightarrow> cell" where
  "fillna v x = (case x of NaN \<Rightarrow> Str v | _ \<Rightarrow> Float x)"

definition cell_of :: "count_table \<Rightarrow> string \<times> string \<Rightarrow> float64" where
  "cell_of t k = (case map_of t k of None \<Rightarrow> NaN | Some v \<Rightarrow> Finite v)"

record count_row =
  raw_reads_r1r2 :: cell
  total_biological_reads_r1r2 :: cell
  non_host_reads :: cell
  quality_filtered_reads_r1r2 :: cell
  fraction_passing_quality_filter :: cell
  fraction_non_human :: cell

text \<open>One row of the left join, with the two fractions, after \<^verbatim>\<open>fillna\<close>.\<close>

definition joined_row ::
  "count_table \<Rightarrow> count_table \<Rightarrow> count_table \<Rightarrow> (string \<times> string) \<times> rat
     \<Rightarrow> (string \<times> string) \<times> count_row" where
  "joined_row fastp minimap direct kv =
     (let k = fst kv;
          raw = Finite (snd kv);
          biological = cell_of fastp k;
          non_host = cell_of minimap k;
          quality = cell_of direct k;
          ratio = truediv quality raw
      in (k, \<lparr>raw_reads_r1r2 = fillna ''NA'' raw,
              total_biological_reads_r1r2 = fillna ''NA'' biological,
              non_host_reads = fillna ''NA'' non_host,
              quality_filtered_reads_r1r2 = fillna ''NA'' quality,
              fraction_passing_quality_filter = fillna ''NA'' ratio,
              fraction_non_human = fillna ''NA'' (truediv non_host quality)\<rparr>))"

definition run_counts ::
  "env \<Rightarrow> string \<Rightarrow> metadata
     \<Rightarrow> warning list \<times> (error + ((string \<times> string) \<times> count_row) list)" where
  "run_counts e run_dir md =
     (case bcl2fastq_counts e run_dir md of
        Inl err \<Rightarrow> ([], Inl err)
      | Inr demux \<Rightarrow>
          (case fastp_counts e run_dir md of
             (w1, Inl err) \<Rightarrow> (w1, Inl err)
           | (w1, Inr fastp) \<Rightarrow>
               (case minimap2_counts e run_dir md of
                  (w2, Inl err) \<Rightarrow> (w1 @ w2, Inl err)
                | (w2, Inr minimap) \<Rightarrow>
                    (case direct_sequence_counts e run_dir md of
                       Inl err \<Rightarrow> (w1 @ w2, Inl err)
                     | Inr direct \<Rightarrow>
                         (w1 @ w2, Inr (map (joined_row fastp minimap direct) demux))))))"

text \<open>
  What a cell of the joined table reads after \<^verbatim>\<open>fillna\<close>, and what a fraction of
  two joined cells reads, in terms of the cells being present or missing.
\<close>

definition na_cell :: "rat option \<Rightarrow> cell" where
  "na_cell v = (case v of None \<Rightarrow> Str ''NA'' | Some x \<Rightarrow> Float (Finite x))"

definition fraction_cell :: "rat option \<Rightarrow> rat option \<Rightarrow> cell" where
  "fraction_cell numerator denominator =
     (case (numerator, denominator) of
        (Some a, Some b) \<Rightarrow>
          if b \<noteq> 0 then Float (Finite (a / b))
          else if a = 0 then Str ''NA''
          else if 0 < a then Float PInf else Float NInf
      | _ \<Rightarrow> Str ''NA'')"

section \<open>A run directory to compute on\<close>

text \<open>
  One project, one lane, one sample: a tabular demultiplex report with 100 reads for S1, a
  trimming report with 90 reads, a host-filter log of 40 reads, and two sequence files of
  40 records each that only parse under the second quality variant.
\<close>

definition example_samples :: "sample list" where
  "example_samples = [\<lparr>Sample_ID = ''S1'', Sample_Project = ''P'', Lane = ''1''\<rparr>]"

definition example_sheet :: metadata where
  "example_sheet = KLSampleSheet example_samples"

definition example_run :: env where
  "example_run =
     \<lparr>fs_glob = (\<lambda>p.
        if p = ''run/P/json/*_L001_R1_001.json''
        then [''run/P/json/S1_S7_L001_R1_001.json'']
        else if p = ''run/P/samtools/*_L001_R1_001.log''
        then [''run/P/samtools/S1_S7_L001_R1_001.log'']
        else if p = ''run/P/filtered_sequences/*_L001_R?_001.trimmed.fastq.gz''
        then [''run/P/filtered_sequences/S1_S7_L001_R2_001.trimmed.fastq.gz'',
              ''run/P/filtered_sequences/S1_S7_L001_R1_001.trimmed.fastq.gz'']
        else []),
      fs_exists = (\<lambda>p. p = ''/data/run/Reports/Demultiplex_Stats.csv''),
      fs_abspath = (\<lambda>p. ''/data/'' @ p),
      fs_read = (\<lambda>p.
        if p = ''run/P/samtools/S1_S7_L001_R1_001.log''
        then Inr ''[x] processed 40 reads''
        else if p = ''run/P/samtools/notes.log''
        then Inr ''processed 40 reads''
        else Inl (IOError ''No such file or directory'')),
      fs_load_fastp = (\<lambda>p.
        if p = ''run/P/json/S1_S7_L001_R1_001.json''
        then Inr \<lparr>summary = Some \<lparr>after_filtering = Some \<lparr>total_reads = Some 90\<rparr>\<rparr>\<rparr>
        else Inl (IOError ''No such file or directory'')),
      fs_load_stats = (\<lambda>p. Inl (IOError ''No such file or directory'')),
      fs_read_csv = (\<lambda>p.
        if p = ''/data/run/Reports/Demultiplex_Stats.csv''
        then Inr [(''S1'', 1, 100), (''Undetermined'', 1, 12)]
        else Inl (IOError ''No such file or directory'')),
      skb_read = (\<lambda>p v.
        if v = ''illumina1.8'' \<or> p = ''run/P/broken.fastq.gz''
        then Inl (ValueError ''Decoded Phred score is out of range'')
        else if p = ''run/P/filtered_sequences/S1_S7_L001_R1_001.trimmed.fastq.gz'' then Inr 40
        else if p = ''run/P/filtered_sequences/S1_S7_L001_R2_001.trimmed.fastq.gz'' then Inr 40
        else Inl (IOError ''No such file or directory''))\<rparr>"

text \<open>The same run with the structured report \<^verbatim>\<open>Stats/Stats.json\<close> instead.\<close>

definition stats_json_run :: env where
  "stats_json_run =
     example_run
       \<lparr>fs_exists := (\<lambda>p. p = ''/data/run/Stats/Stats.json''),
        fs_load_stats := (\<lambda>p.
          Inr \<lparr>ConversionResults =
                 Some [\<lparr>DemuxResults = Some [\<lparr>SampleId = ''S1'', NumberReads = 200\<rparr>],
                        LaneNumber = Some 1\<rparr>]\<rparr>)\<rparr>"

text \<open>
  The run with a third sequence file in the lane, so that the glob of the lane is odd, and
  an environment in which the last file of the sorted glob of a pattern is removed.
\<close>

definition odd_glob_run :: env where
  "odd_glob_run =
     example_run
       \<lparr>fs_glob := (\<lambda>p.
          if p = ''run/P/filtered_sequences/*_L001_R?_001.trimmed.fastq.gz''
          then [''run/P/filtered_sequences/S2_S8_L001_R1_001.trimmed.fastq.gz'',
                ''run/P/filtered_sequences/S1_S7_L001_R2_001.trimmed.fastq.gz'',
                ''run/P/filtered_sequences/S1_S7_L001_R1_001.trimmed.fastq.gz'']
          else fs_glob example_run p)\<rparr>"

definition without_last :: "env \<Rightarrow> string \<Rightarrow> env" where
  "without_last e pattern = e\<lparr>fs_glob := (fs_glob e)(pattern := butlast (sort (fs_glob e pattern)))\<rparr>"

text \<open>
  A run whose project directory holds \<^verbatim>\<open>trimmed_sequences\<close> only, with the two
  sequence files in it, and a run that holds neither directory.
\<close>

definition trimmed_only_run :: env where
  "trimmed_only_run =
     example_run
       \<lparr>fs_glob := (\<lambda>p.
          if p = ''run/P/trimmed_sequences/*_L001_R?_001.trimmed.fastq.gz''
          then [''run/P/trimmed_sequences/S1_S7_L001_R1_001.trimmed.fastq.gz'',
                ''run/P/trimmed_sequences/S1_S7_L001_R2_001.trimmed.fastq.gz'']
          else []),
        fs_exists := (\<lambda>p. p = ''run/P/trimmed_sequences'' \<or> p = ''run/trimmed_sequences''),
        skb_read := (\<lambda>p v. Inr 40)\<rparr>"

definition no_sequences_run :: env where
  "no_sequences_run = example_run\<lparr>fs_glob := (\<lambda>p. []), fs_exists := (\<lambda>p. False)\<rparr>"

text \<open>
  The run after a second demultiplexing: two trimming reports for S1 in lane 1 that differ
  in the cell number only.
\<close>

definition duplicate_run :: env where
  "duplicate_run =
     example_run
       \<lparr>fs_glob := (\<lambda>p.
          if p = ''run/P/json/*_L001_R1_001.json''
          then [''run/P/json/S1_S7_L001_R1_001.json'', ''run/P/json/S1_S8_L001_R1_001.json'']
          else fs_glob example_run p)\<rparr>"

text \<open>
  Sheets with a sample that has no log: S2 in the same lane, and S1 again in lane 2. A run
  that also holds a trimming report of S3, a sample outside the sheet.
\<close>

definition two_samples :: "sample list" where
  "two_samples =
     [\<lparr>Sample_ID = ''S1'', Sample_Project = ''P'', Lane = ''1''\<rparr>,
      \<lparr>Sample_ID = ''S2'', Sample_Project = ''P'', Lane = ''1''\<rparr>]"

definition two_lanes :: "sample list" where
  "two_lanes =
     [\<lparr>Sample_ID = ''S1'', Sample_Project = ''P'', Lane = ''1''\<rparr>,
      \<lparr>Sample_ID = ''S1'', Sample_Project = ''P'', Lane = ''2''\<rparr>]"

definition stray_run :: env where
  "stray_run =
     example_run
       \<lparr>fs_glob := (\<lambda>p.
          if p = ''run/P/json/*_L001_R1_001.json''
          then [''run/P/json/S1_S7_L001_R1_001.json'', ''run/P/json/S3_S9_L001_R1_001.json'']
          else fs_glob example_run p)\<rparr>"

text \<open>The run with a demultiplex report of zero reads for S1.\<close>

definition zero_raw_run :: env where
  "zero_raw_run = example_run\<lparr>fs_read_csv := (\<lambda>p. Inr [(''S1'', 1, 0)])\<rparr>"

section \<open>Properties of the matchers\<close>

lemma takeWhile_prefix_len:
  "s = a @ b \<Longrightarrow> list_all p a \<Longrightarrow> length a \<le> length (takeWhile p s)"
  by (induction a arbitrary: s) auto

lemma take_le_takeWhile:
  "k \<le> length (takeWhile p s) \<Longrightarrow> list_all p (take k s)"
proof (induction s arbitrary: k)
  case Nil
  then show ?case by simp
next
  case (Cons c s)
  then show ?case by (cases k) (auto split: if_splits)
qed

lemma set_greedy_splits:
  "(a, b) \<in> set (greedy_splits p lo hi s) \<longleftrightarrow>
     s = a @ b \<and> lo \<le> length a \<and> length a \<le> hi \<and> list_all p a"
proof
  assume "(a, b) \<in> set (greedy_splits p lo hi s)"
  then have "(a, b) \<in> (\<lambda>k. (take k s, drop k s)) ` set (rev [lo ..< Suc (min hi (length (takeWhile p s)))])"
    unfolding greedy_splits_def set_map .
  then obtain k where kin: "k \<in> set (rev [lo ..< Suc (min hi (length (takeWhile p s)))])"
    and ab: "a = take k s" "b = drop k s"
    by blast
  from kin have k: "lo \<le> k" "k \<le> hi" "k \<le> length (takeWhile p s)" by auto
  have "k \<le> length s" using k(3) length_takeWhile_le [of p s] by (rule order_trans)
  with k ab show "s = a @ b \<and> lo \<le> length a \<and> length a \<le> hi \<and> list_all p a"
    by (simp add: take_le_takeWhile min_absorb2)
next
  assume h: "s = a @ b \<and> lo \<le> length a \<and> length a \<le> hi \<and> list_all p a"
  then have "length a \<le> length (takeWhile p s)" by (simp add: takeWhile_prefix_len)
  with h have "length a \<in> set (rev [lo ..< Suc (min hi (length (takeWhile p s)))])"
    by auto
  moreover from h have "(a, b) = (take (length a) s, drop (length a) s)" by simp
  ultimately show "(a, b) \<in> set (greedy_splits p lo hi s)"
    unfolding greedy_splits_def set_map by (rule image_eqI [rotated])
qed

lemma set_lit: "r \<in> set (lit l s) \<longleftrightarrow> s = l @ r"
proof
  assume "r \<in> set (lit l s)"
  then have "take (length l) s = l" and "r = drop (length l) s"
    by (simp_all add: lit_def split: if_splits)
  then show "s = l @ r" using append_take_drop_id [of "length l" s] by simp
next
  assume "s = l @ r"
  then show "r \<in> set (lit l s)" by (simp add: lit_def)
qed

lemma set_char_class: "(c, r) \<in> set (char_class p s) \<longleftrightarrow> s = c # r \<and> p c"
  by (auto simp: char_class_def split: list.splits if_splits)

lemma greedy_splits_any: "greedy_splits p 0 hi s \<noteq> []"
  by (simp add: greedy_splits_def)

lemma in_concat_map:
  "y \<in> set (concat (map f xs)) \<longleftrightarrow> (\<exists>x. x \<in> set xs \<and> y \<in> set (f x))"
  by auto

lemma in_map_plain:
  "y \<in> set (map f xs) \<longleftrightarrow> (\<exists>x. x \<in> set xs \<and> y = f x)"
  by force

lemma SAMPLE_PATTERN_sound:
  assumes "(name, g2, g3, g4) \<in> set (SAMPLE_PATTERN s)"
  shows "\<exists>cell lane ri d rest. g2 = CHR ''S'' # cell \<and> g3 = CHR ''L'' # lane \<and> g4 = [ri, d] \<and>
        convention_parts s name cell lane ri d rest"
  using assms unfolding SAMPLE_PATTERN_def convention_parts_def
  apply (simp only: in_concat_map in_map_plain split_paired_Ex prod.case set_greedy_splits set_lit set_char_class)
  apply (elim exE conjE)
  apply (simp only: prod.inject)
  apply (elim conjE)
  apply hypsubst
  apply (intro exI conjI; (rule refl | assumption | simp))
  done

lemma SAMPLE_PATTERN_complete:
  assumes "convention_parts s name cell lane ri d rest"
  shows "(name, CHR ''S'' # cell, CHR ''L'' # lane, [ri, d]) \<in> set (SAMPLE_PATTERN s)"
proof -
  let ?r8 = rest
  let ?r7 = "d # ?r8"
  let ?r6 = "ri # ?r7"
  let ?r5 = "''_'' @ ?r6"
  let ?r4 = "lane @ ?r5"
  let ?r3 = "''_L'' @ ?r4"
  let ?r2 = "cell @ ?r3"
  let ?r1 = "''_S'' @ ?r2"
  from assms have s: "s = name @ ?r1" and nm: "list_all not_newline name"
    and cl: "list_all is_digit cell" "1 \<le> length cell" "length cell \<le> 4"
    and ln: "list_all is_digit lane" "1 \<le> length lane" "length lane \<le> 3"
    and rd: "ri \<in> set ''RI''" "d \<in> set ''12''"
    by (simp_all add: convention_parts_def)
  have 1: "(name, ?r1) \<in> set (greedy_splits not_newline 0 (length s) s)"
    using s nm by (simp add: set_greedy_splits)
  have 2: "?r2 \<in> set (lit ''_S'' ?r1)" by (simp add: set_lit)
  have 3: "(cell, ?r3) \<in> set (greedy_splits is_digit 1 4 ?r2)"
    using cl by (simp add: set_greedy_splits)
  have 4: "?r4 \<in> set (lit ''_L'' ?r3)" by (simp add: set_lit)
  have 5: "(lane, ?r5) \<in> set (greedy_splits is_digit 1 3 ?r4)"
    using ln by (simp add: set_greedy_splits)
  have 6: "?r6 \<in> set (lit ''_'' ?r5)" by (simp add: set_lit)
  have 7: "(ri, ?r7) \<in> set (char_class (\<lambda>c. c \<in> set ''RI'') ?r6)"
    using rd by (simp add: set_char_class)
  have 8: "(d, ?r8) \<in> set (char_class (\<lambda>c. c \<in> set ''12'') ?r7)"
    using rd by (simp add: set_char_class)
  have 9: "([], ?r8) \<in> set (greedy_splits not_newline 0 (length ?r8) ?r8)"
    by (simp add: set_greedy_splits)
  show ?thesis
    unfolding SAMPLE_PATTERN_def
    apply (simp only: in_concat_map in_map_plain split_paired_Ex prod.case)
    using 1 2 3 4 5 6 7 8 9 by blast
qed

lemma first_match_None: "first_match ms = None \<longleftrightarrow> ms = []"
  by (simp add: first_match_def split: list.splits)

lemma first_match_in: "first_match ms = Some m \<Longrightarrow> m \<in> set ms"
  by (auto simp: first_match_def split: list.splits)

lemma SAMPLE_PATTERN_empty: "SAMPLE_PATTERN s = [] \<longleftrightarrow> \<not> follows_convention s"
proof
  assume e: "SAMPLE_PATTERN s = []"
  show "\<not> follows_convention s"
  proof
    assume "follows_convention s"
    then obtain name cell lane ri d rest where "convention_parts s name cell lane ri d rest"
      unfolding follows_convention_def by blast
    from SAMPLE_PATTERN_complete [OF this] e show False by simp
  qed
next
  assume n: "\<not> follows_convention s"
  show "SAMPLE_PATTERN s = []"
  proof (cases "SAMPLE_PATTERN s")
    case Nil
    then show ?thesis .
  next
    case (Cons m ms)
    obtain name g2 g3 g4 where m: "m = (name, g2, g3, g4)" by (cases m) auto
    with Cons have "(name, g2, g3, g4) \<in> set (SAMPLE_PATTERN s)" by simp
    from SAMPLE_PATTERN_sound [OF this] n show ?thesis
      unfolding follows_convention_def by blast
  qed
qed

lemma lstrip_no_lead: "lstrip c s = [] \<or> hd (lstrip c s) \<noteq> c"
  unfolding lstrip_def using hd_dropWhile [of "\<lambda>x. x = c" s] by blast

lemma lstrip_suffix: "\<exists>zs. s = zs @ lstrip c s \<and> set zs \<subseteq> {c}"
proof -
  have "s = takeWhile (\<lambda>x. x = c) s @ lstrip c s" by (simp add: lstrip_def)
  moreover have "set (takeWhile (\<lambda>x. x = c) s) \<subseteq> {c}"
    using set_takeWhileD by fastforce
  ultimately show ?thesis by blast
qed




lemma int_of_digits_snoc: "int_of_digits (ds @ [c]) = 10 * int_of_digits ds + digit_val c"
  by (simp add: int_of_digits_def)

lemma digit_val_digit_char: "n < 10 \<Longrightarrow> digit_val (digit_char n) = n"
  by (simp add: digit_val_def digit_char_def)

lemma int_of_digits_str_nat: "int_of_digits (str_nat n) = n"
proof (induction n rule: str_nat.induct)
  case (1 n)
  show ?case
  proof (cases "n < 10")
    case True
    then show ?thesis
      by (subst str_nat.simps) (simp add: int_of_digits_def digit_val_digit_char)
  next
    case False
    with 1 have "int_of_digits (str_nat (n div 10)) = n div 10" by simp
    with False show ?thesis
      by (subst str_nat.simps) (simp add: int_of_digits_snoc digit_val_digit_char)
  qed
qed

lemma first_match_concat_map:
  "first_match (concat (map G xs)) = Some y \<Longrightarrow>
     \<exists>pre x post. xs = pre @ x # post \<and> (\<forall>z \<in> set pre. G z = []) \<and> y \<in> set (G x)"
proof (induction xs)
  case Nil
  then show ?case by (simp add: first_match_def)
next
  case (Cons a xs)
  show ?case
  proof (cases "G a = []")
    case True
    with Cons.prems have "first_match (concat (map G xs)) = Some y" by simp
    from Cons.IH [OF this] obtain pre x post where
      "xs = pre @ x # post" "\<forall>z \<in> set pre. G z = []" "y \<in> set (G x)" by blast
    with True have "a # xs = (a # pre) @ x # post \<and> (\<forall>z \<in> set (a # pre). G z = []) \<and> y \<in> set (G x)"
      by simp
    then show ?thesis by blast
  next
    case False
    then obtain g gs where g: "G a = g # gs" by (cases "G a") auto
    with Cons.prems have "y = g" by (simp add: first_match_def)
    with g have "a # xs = [] @ a # xs \<and> (\<forall>z \<in> set []. G z = []) \<and> y \<in> set (G a)" by simp
    then show ?thesis by blast
  qed
qed

lemma sorted_wrt_rev_upt: "sorted_wrt (>) (rev [lo ..< hi])"
  by (simp add: sorted_wrt_rev)

lemma greedy_splits_order:
  assumes "greedy_splits p lo hi s = pre @ (a, b) # post" and "(a', b') \<in> set (greedy_splits p lo hi s)"
    and "(a', b') \<notin> set pre"
  shows "length a' \<le> length a"
proof -
  let ?f = "\<lambda>k. (take k s, drop k s)"
  let ?ks = "rev [lo ..< Suc (min hi (length (takeWhile p s)))]"
  from assms(1) have "map ?f ?ks = pre @ (a, b) # post" by (simp add: greedy_splits_def)
  then obtain kpre k kpost where ks: "?ks = kpre @ k # kpost"
    and pre: "pre = map ?f kpre" and ab: "(a, b) = ?f k" and post: "post = map ?f kpost"
    by (auto simp: map_eq_append_conv map_eq_Cons_conv)
  have len: "length (take j s) = j" if "j \<in> set ?ks" for j
  proof -
    from that have "j \<le> length (takeWhile p s)" by auto
    with length_takeWhile_le [of p s] have "j \<le> length s" by linarith
    then show ?thesis by simp
  qed
  have "sorted_wrt (>) ?ks" by (rule sorted_wrt_rev_upt)
  then have lt: "\<forall>j \<in> set kpost. j < k" unfolding ks by (simp add: sorted_wrt_append)
  from assms(2,3) assms(1) have "(a', b') = (a, b) \<or> (a', b') \<in> set post" by auto
  then show ?thesis
  proof
    assume "(a', b') = (a, b)"
    then show ?thesis by simp
  next
    assume "(a', b') \<in> set post"
    then obtain j where j: "j \<in> set kpost" and a': "a' = take j s" unfolding post by auto
    from j ks have jin: "j \<in> set ?ks" by simp
    from ks have kin: "k \<in> set ?ks" by simp
    from ab have a: "a = take k s" by simp
    from lt j have "j < k" by blast
    with len [OF jin] len [OF kin] a a' show ?thesis by simp
  qed
qed

lemma first_match_SAMPLE_PATTERN_longest:
  assumes fm: "first_match (SAMPLE_PATTERN s) = Some (name, g2, g3, g4)"
    and cp: "convention_parts s name' cell' lane' ri' d' rest'"
  shows "length name' \<le> length name"
proof -
  define G :: "string \<times> string \<Rightarrow> (string \<times> string \<times> string \<times> string) list" where
    "G = (\<lambda>(name, r1).
       [(name, CHR ''S'' # cell, CHR ''L'' # lane, [ri, d]).
        r2 \<leftarrow> lit ''_S'' r1,
        (cell, r3) \<leftarrow> greedy_splits is_digit 1 4 r2,
        r4 \<leftarrow> lit ''_L'' r3,
        (lane, r5) \<leftarrow> greedy_splits is_digit 1 3 r4,
        r6 \<leftarrow> lit ''_'' r5,
        (ri, r7) \<leftarrow> char_class (\<lambda>c. c \<in> set ''RI'') r6,
        (d, r8) \<leftarrow> char_class (\<lambda>c. c \<in> set ''12'') r7,
        rest \<leftarrow> greedy_splits not_newline 0 (length r8) r8])"
  let ?xs = "greedy_splits not_newline 0 (length s) s"
  have sp: "SAMPLE_PATTERN s = concat (map G ?xs)"
    unfolding SAMPLE_PATTERN_def G_def ..
  have Gfst: "fst y = a" if "y \<in> set (G (a, b))" for y a b
    using that unfolding G_def prod.case
    by (simp only: in_concat_map in_map_plain split_paired_Ex prod.case) (elim exE conjE, simp)
  from fm obtain pre x post where xs: "?xs = pre @ x # post"
    and empty: "\<forall>z \<in> set pre. G z = []" and y: "(name, g2, g3, g4) \<in> set (G x)"
    unfolding sp by (blast dest: first_match_concat_map)
  obtain a b where x: "x = (a, b)" by (cases x) auto
  from Gfst y x have a: "a = name" by fastforce
  from SAMPLE_PATTERN_complete [OF cp]
  have "(name', CHR ''S'' # cell', CHR ''L'' # lane', [ri', d']) \<in> set (concat (map G ?xs))"
    unfolding sp .
  then obtain z where z: "z \<in> set ?xs"
    and yz: "(name', CHR ''S'' # cell', CHR ''L'' # lane', [ri', d']) \<in> set (G z)"
    by auto
  obtain a' b' where z': "z = (a', b')" by (cases z) auto
  from Gfst yz z' have a': "a' = name'" by fastforce
  from yz have "G z \<noteq> []" by auto
  with empty have "z \<notin> set pre" by blast
  from greedy_splits_order [OF xs [unfolded x]] z this z'
  have "length a' \<le> length a" by blast
  with a a' show ?thesis by simp
qed

section \<open>The filename identity parser on the naming convention\<close>

text \<open>
  C6. A filename that follows the convention \<^verbatim>\<open><name>_S<cellnum>_L<lane>_<R|I><1|2>...\<close>
  is split into its parts, with the longest name that the filename allows, and the parser
  returns that name together with the lane digits with every leading zero removed, so the
  returned lane starts neither with a zero nor with the letter L. A filename that does not follow the convention is answered with the
  error "Unrecognized filename pattern", never passed through.
\<close>

theorem extract_name_and_lane_convention:
  "(follows_convention filename \<longrightarrow>
      (\<exists>name cell lane ri d rest.
         convention_parts filename name cell lane ri d rest \<and>
         (\<forall>name' cell' lane' ri' d' rest'.
            convention_parts filename name' cell' lane' ri' d' rest' \<longrightarrow>
              length name' \<le> length name) \<and>
         extract_name_and_lane filename = Inr (name, lstrip (CHR ''0'') lane) \<and>
         (lstrip (CHR ''0'') lane = [] \<or>
            hd (lstrip (CHR ''0'') lane) \<notin> {CHR ''0'', CHR ''L''}))) \<and>
   (\<not> follows_convention filename \<longrightarrow>
      extract_name_and_lane filename =
        Inl (ValueError (''Unrecognized filename pattern '' @ filename)))"
proof (intro conjI impI)
  assume "follows_convention filename"
  then have "SAMPLE_PATTERN filename \<noteq> []" by (simp add: SAMPLE_PATTERN_empty)
  then obtain m where fm: "first_match (SAMPLE_PATTERN filename) = Some m"
    by (cases "SAMPLE_PATTERN filename") (simp_all add: first_match_def)
  obtain name g2 g3 g4 where m: "m = (name, g2, g3, g4)" by (cases m) auto
  from first_match_in [OF fm] m have "(name, g2, g3, g4) \<in> set (SAMPLE_PATTERN filename)"
    by simp
  from SAMPLE_PATTERN_sound [OF this] obtain cell lane ri d rest
    where g: "g3 = CHR ''L'' # lane"
      and c: "convention_parts filename name cell lane ri d rest" by blast
  have r: "extract_name_and_lane filename = Inr (name, lstrip (CHR ''0'') lane)"
    by (simp add: extract_name_and_lane_def fm m g)
  have dg: "list_all is_digit (lstrip (CHR ''0'') lane)"
  proof -
    from c have "list_all is_digit lane" by (simp add: convention_parts_def)
    then show ?thesis
      unfolding lstrip_def list_all_iff using set_dropWhileD by fast
  qed
  have "lstrip (CHR ''0'') lane = [] \<or> hd (lstrip (CHR ''0'') lane) \<notin> {CHR ''0'', CHR ''L''}"
  proof (cases "lstrip (CHR ''0'') lane")
    case Nil
    then show ?thesis by simp
  next
    case (Cons x xs)
    with dg have "is_digit x" by simp
    then have "x \<noteq> CHR ''L''" by (auto simp: is_digit_def)
    moreover from lstrip_no_lead [of "CHR ''0''" lane] Cons have "x \<noteq> CHR ''0''" by simp
    ultimately show ?thesis using Cons by simp
  qed
  moreover have "\<forall>name' cell' lane' ri' d' rest'.
            convention_parts filename name' cell' lane' ri' d' rest' \<longrightarrow>
              length name' \<le> length name"
    using first_match_SAMPLE_PATTERN_longest [OF fm [unfolded m]] by blast
  ultimately show "\<exists>name cell lane ri d rest.
         convention_parts filename name cell lane ri d rest \<and>
         (\<forall>name' cell' lane' ri' d' rest'.
            convention_parts filename name' cell' lane' ri' d' rest' \<longrightarrow>
              length name' \<le> length name) \<and>
         extract_name_and_lane filename = Inr (name, lstrip (CHR ''0'') lane) \<and>
         (lstrip (CHR ''0'') lane = [] \<or>
            hd (lstrip (CHR ''0'') lane) \<notin> {CHR ''0'', CHR ''L''})"
    using c r by blast
next
  assume "\<not> follows_convention filename"
  then have "SAMPLE_PATTERN filename = []" by (simp add: SAMPLE_PATTERN_empty)
  then show "extract_name_and_lane filename =
        Inl (ValueError (''Unrecognized filename pattern '' @ filename))"
    by (simp add: extract_name_and_lane_def first_match_def)
qed

theorem extract_name_and_lane_convention_witness:
  "follows_convention ''sample1_S12_L001_R1_001.fastq.gz'' \<and>
   extract_name_and_lane ''sample1_S12_L001_R1_001.fastq.gz'' = Inr (''sample1'', ''1'') \<and>
   \<not> follows_convention ''sample1_L001_R1_001.fastq.gz'' \<and>
   extract_name_and_lane ''sample1_L001_R1_001.fastq.gz'' =
     Inl (ValueError ''Unrecognized filename pattern sample1_L001_R1_001.fastq.gz'')"
proof -
  have "convention_parts ''sample1_S12_L001_R1_001.fastq.gz''
          ''sample1'' ''12'' ''001'' (CHR ''R'') (CHR ''1'') ''_001.fastq.gz''"
    by (simp add: convention_parts_def not_newline_def is_digit_def)
  then have a: "follows_convention ''sample1_S12_L001_R1_001.fastq.gz''"
    unfolding follows_convention_def by blast
  have "SAMPLE_PATTERN ''sample1_L001_R1_001.fastq.gz'' = []" by code_simp
  then have b: "\<not> follows_convention ''sample1_L001_R1_001.fastq.gz''"
    by (simp add: SAMPLE_PATTERN_empty)
  have c: "extract_name_and_lane ''sample1_S12_L001_R1_001.fastq.gz'' = Inr (''sample1'', ''1'')"
    by code_simp
  from a b c extract_name_and_lane_convention [of "''sample1_L001_R1_001.fastq.gz''"]
    extract_name_and_lane_convention [of "''sample1_S12_L001_R1_001.fastq.gz''"]
  show ?thesis by simp
qed

text \<open>
  C9. When the lane group that the pattern captures is the letter L followed by zeros
  only, the parser returns the empty string as the lane.
\<close>

theorem extract_name_and_lane_zero_lane:
  assumes "first_match (SAMPLE_PATTERN filename) = Some (name, cell, CHR ''L'' # zs, rd)"
    and "set zs \<subseteq> {CHR ''0''}"
  shows "extract_name_and_lane filename = Inr (name, [])"
proof -
  from assms(2) have "dropWhile (\<lambda>x. x = CHR ''0'') zs = []"
    by (auto simp: dropWhile_eq_Nil_conv)
  with assms(1) show ?thesis
    by (simp add: extract_name_and_lane_def lstrip_def)
qed

theorem extract_name_and_lane_zero_lane_witness:
  "first_match (SAMPLE_PATTERN ''sample1_S12_L000_R1_001.fastq.gz'')
     = Some (''sample1'', ''S12'', CHR ''L'' # ''000'', ''R1'') \<and>
   set ''000'' \<subseteq> {CHR ''0''} \<and>
   extract_name_and_lane ''sample1_S12_L000_R1_001.fastq.gz'' = Inr (''sample1'', [])"
proof -
  have m: "first_match (SAMPLE_PATTERN ''sample1_S12_L000_R1_001.fastq.gz'')
     = Some (''sample1'', ''S12'', CHR ''L'' # ''000'', ''R1'')"
    by code_simp
  have z: "set ''000'' \<subseteq> {CHR ''0''}" by simp
  from m z extract_name_and_lane_zero_lane [OF m z] show ?thesis by simp
qed

section \<open>The host-filter log parser\<close>



section \<open>The direct sequence counter\<close>









section \<open>The demultiplex aggregator\<close>

lemma set_index_Inr: "set_index t = Inr t' \<Longrightarrow> t' = t \<and> distinct (map fst t)"
  by (simp add: set_index_def split: if_splits)

lemma set_index_distinct: "distinct (map fst t) \<Longrightarrow> set_index t = Inr t"
  by (simp add: set_index_def)

lemma index_rows_Inr:
  assumes "index_rows rows = Inr t"
  shows "distinct (map fst t) \<and> map fst t = map (\<lambda>(sid, lane, n). (sid, lane)) rows"
proof -
  from assms set_index_Inr
  have t: "t = map (\<lambda>(sid, lane, n). ((sid, lane), of_int n)) rows" and d: "distinct (map fst t)"
    unfolding index_rows_def by blast+
  have "map fst t = map (\<lambda>(sid, lane, n). (sid, lane)) rows"
    unfolding t by (induction rows) auto
  with d show ?thesis by simp
qed

lemma lane_frames_lanes:
  "lane_frames lanes = Inr frames \<Longrightarrow>
     \<forall>(sid, lane, n) \<in> set (concat frames). \<exists>i. lane = str_int i"
proof (induction lanes arbitrary: frames)
  case Nil
  then show ?case by simp
next
  case (Cons l ls)
  then show ?case
    apply (auto simp: safe_get_def split: option.splits sum.splits)
     apply blast
    apply fastforce
    done
qed

lemma bcl2fastq_counts_json_Inr:
  assumes "bcl2fastq_counts_json e path = Inr t"
  shows "distinct (map fst t) \<and> (\<forall>((sid, lane), n) \<in> set t. \<exists>i. lane = str_int i)"
proof -
  from assms obtain contents lanes frames where
    f: "lane_frames lanes = Inr frames" and i: "index_rows (concat frames) = Inr t"
    by (auto simp: bcl2fastq_counts_json_def split: sum.splits if_splits)
  from index_rows_Inr [OF i] have d: "distinct (map fst t)"
    and k: "map fst t = map (\<lambda>(sid, lane, n). (sid, lane)) (concat frames)" by blast+
  have "\<forall>(sid, lane) \<in> set (map fst t). \<exists>i. lane = str_int i"
    unfolding k using lane_frames_lanes [OF f] by fastforce
  then have "\<forall>((sid, lane), n) \<in> set t. \<exists>i. lane = str_int i" by fastforce
  with d show ?thesis by simp
qed

lemma bclconvert_counts_Inr:
  assumes "bclconvert_counts e path = Inr t"
  shows "distinct (map fst t) \<and> (\<forall>((sid, lane), n) \<in> set t. \<exists>i. lane = str_int i)"
proof -
  from assms obtain df where
    i: "index_rows (map (\<lambda>(sid, lane, reads). (sid, str_int lane, reads * 2))
               (filter (\<lambda>(sid, lane, reads). sid \<noteq> ''Undetermined'') df)) = Inr t"
    by (auto simp: bclconvert_counts_def split: sum.splits)
  from index_rows_Inr [OF i] have d: "distinct (map fst t)"
    and k: "map fst t = map (\<lambda>(sid, lane, n). (sid, lane))
       (map (\<lambda>(sid, lane, reads). (sid, str_int lane, reads * 2))
               (filter (\<lambda>(sid, lane, reads). sid \<noteq> ''Undetermined'') df))" by blast+
  have "\<forall>(sid, lane) \<in> set (map fst t). \<exists>i. lane = str_int i"
    unfolding k by fastforce
  then have "\<forall>((sid, lane), n) \<in> set t. \<exists>i. lane = str_int i" by fastforce
  with d show ?thesis by simp
qed

text \<open>
  C4. The aggregator probes \<^verbatim>\<open>Stats/Stats.json\<close> and
  \<^verbatim>\<open>Reports/Demultiplex_Stats.csv\<close> under the run directory. When both exist it
  raises an \<^verbatim>\<open>IOError\<close>, when neither exists it raises an \<^verbatim>\<open>IOError\<close>, and
  when exactly one exists its result is that of the parser of that report. Every table it
  returns has pairwise distinct keys (Sample_ID, Lane), the lane being the decimal string of
  an integer.
\<close>

theorem bcl2fastq_counts_exactly_one_report:
  "(fs_exists e (stats_path e run_dir) \<and> fs_exists e (demultiplex_stats_path e run_dir) \<longrightarrow>
      (\<exists>msg. bcl2fastq_counts e run_dir sample_sheet = Inl (IOError msg))) \<and>
   (\<not> fs_exists e (stats_path e run_dir) \<and> \<not> fs_exists e (demultiplex_stats_path e run_dir) \<longrightarrow>
      (\<exists>msg. bcl2fastq_counts e run_dir sample_sheet = Inl (IOError msg))) \<and>
   (fs_exists e (stats_path e run_dir) \<and> \<not> fs_exists e (demultiplex_stats_path e run_dir) \<longrightarrow>
      bcl2fastq_counts e run_dir sample_sheet = bcl2fastq_counts_json e (stats_path e run_dir)) \<and>
   (\<not> fs_exists e (stats_path e run_dir) \<and> fs_exists e (demultiplex_stats_path e run_dir) \<longrightarrow>
      bcl2fastq_counts e run_dir sample_sheet =
        bclconvert_counts e (demultiplex_stats_path e run_dir)) \<and>
   (\<forall>t. bcl2fastq_counts e run_dir sample_sheet = Inr t \<longrightarrow>
      distinct (map fst t) \<and> (\<forall>((sid, lane), n) \<in> set t. \<exists>i. lane = str_int i))"
proof -
  have dispatch:
    "(fs_exists e (stats_path e run_dir) \<and> fs_exists e (demultiplex_stats_path e run_dir) \<longrightarrow>
      (\<exists>msg. bcl2fastq_counts e run_dir sample_sheet = Inl (IOError msg))) \<and>
   (\<not> fs_exists e (stats_path e run_dir) \<and> \<not> fs_exists e (demultiplex_stats_path e run_dir) \<longrightarrow>
      (\<exists>msg. bcl2fastq_counts e run_dir sample_sheet = Inl (IOError msg))) \<and>
   (fs_exists e (stats_path e run_dir) \<and> \<not> fs_exists e (demultiplex_stats_path e run_dir) \<longrightarrow>
      bcl2fastq_counts e run_dir sample_sheet = bcl2fastq_counts_json e (stats_path e run_dir)) \<and>
   (\<not> fs_exists e (stats_path e run_dir) \<and> fs_exists e (demultiplex_stats_path e run_dir) \<longrightarrow>
      bcl2fastq_counts e run_dir sample_sheet =
        bclconvert_counts e (demultiplex_stats_path e run_dir))"
    unfolding bcl2fastq_counts_def Let_def stats_path_def [symmetric]
      demultiplex_stats_path_def [symmetric]
    by simp
  have keyed: "distinct (map fst t) \<and> (\<forall>((sid, lane), n) \<in> set t. \<exists>i. lane = str_int i)"
    if "bcl2fastq_counts e run_dir sample_sheet = Inr t" for t
  proof -
    from that have "bcl2fastq_counts_json e (stats_path e run_dir) = Inr t \<or>
       bclconvert_counts e (demultiplex_stats_path e run_dir) = Inr t"
      unfolding bcl2fastq_counts_def Let_def stats_path_def [symmetric]
        demultiplex_stats_path_def [symmetric]
      by (simp split: if_splits)
    then show ?thesis
      using bcl2fastq_counts_json_Inr bclconvert_counts_Inr by blast
  qed
  from dispatch keyed show ?thesis by blast
qed

theorem bcl2fastq_counts_exactly_one_report_witness:
  "\<not> fs_exists example_run (stats_path example_run ''run'') \<and>
   fs_exists example_run (demultiplex_stats_path example_run ''run'') \<and>
   bcl2fastq_counts example_run ''run'' example_sheet = Inr [((''S1'', ''1''), 200)] \<and>
   fs_exists stats_json_run (stats_path stats_json_run ''run'') \<and>
   \<not> fs_exists stats_json_run (demultiplex_stats_path stats_json_run ''run'') \<and>
   bcl2fastq_counts stats_json_run ''run'' example_sheet = Inr [((''S1'', ''1''), 200)] \<and>
   (\<exists>msg. bcl2fastq_counts (example_run\<lparr>fs_exists := (\<lambda>p. True)\<rparr>) ''run'' example_sheet
      = Inl (IOError msg)) \<and>
   (\<exists>msg. bcl2fastq_counts (example_run\<lparr>fs_exists := (\<lambda>p. False)\<rparr>) ''run'' example_sheet
      = Inl (IOError msg))"
proof -
  have a: "\<not> fs_exists example_run (stats_path example_run ''run'') \<and>
     fs_exists example_run (demultiplex_stats_path example_run ''run'')"
    by (simp add: example_run_def stats_path_def demultiplex_stats_path_def)
  have a': "bclconvert_counts example_run (demultiplex_stats_path example_run ''run'')
     = Inr [((''S1'', ''1''), 200)]"
    by code_simp
  have b: "fs_exists stats_json_run (stats_path stats_json_run ''run'') \<and>
     \<not> fs_exists stats_json_run (demultiplex_stats_path stats_json_run ''run'')"
    by (simp add: stats_json_run_def example_run_def stats_path_def demultiplex_stats_path_def)
  have b': "bcl2fastq_counts_json stats_json_run (stats_path stats_json_run ''run'')
     = Inr [((''S1'', ''1''), 200)]"
    by code_simp
  have c: "fs_exists (example_run\<lparr>fs_exists := (\<lambda>p. True)\<rparr>)
             (stats_path (example_run\<lparr>fs_exists := (\<lambda>p. True)\<rparr>) ''run'') \<and>
           fs_exists (example_run\<lparr>fs_exists := (\<lambda>p. True)\<rparr>)
             (demultiplex_stats_path (example_run\<lparr>fs_exists := (\<lambda>p. True)\<rparr>) ''run'')"
    by simp
  have d: "\<not> fs_exists (example_run\<lparr>fs_exists := (\<lambda>p. False)\<rparr>)
             (stats_path (example_run\<lparr>fs_exists := (\<lambda>p. False)\<rparr>) ''run'') \<and>
           \<not> fs_exists (example_run\<lparr>fs_exists := (\<lambda>p. False)\<rparr>)
             (demultiplex_stats_path (example_run\<lparr>fs_exists := (\<lambda>p. False)\<rparr>) ''run'')"
    by simp
  from a a' bcl2fastq_counts_exactly_one_report [of example_run "''run''" example_sheet]
  have 1: "bcl2fastq_counts example_run ''run'' example_sheet = Inr [((''S1'', ''1''), 200)]"
    by simp
  from b b' bcl2fastq_counts_exactly_one_report [of stats_json_run "''run''" example_sheet]
  have 2: "bcl2fastq_counts stats_json_run ''run'' example_sheet = Inr [((''S1'', ''1''), 200)]"
    by simp
  from c bcl2fastq_counts_exactly_one_report
    [of "example_run\<lparr>fs_exists := (\<lambda>p. True)\<rparr>" "''run''" example_sheet]
  have 3: "\<exists>msg. bcl2fastq_counts (example_run\<lparr>fs_exists := (\<lambda>p. True)\<rparr>) ''run'' example_sheet
      = Inl (IOError msg)"
    by blast
  from d bcl2fastq_counts_exactly_one_report
    [of "example_run\<lparr>fs_exists := (\<lambda>p. False)\<rparr>" "''run''" example_sheet]
  have 4: "\<exists>msg. bcl2fastq_counts (example_run\<lparr>fs_exists := (\<lambda>p. False)\<rparr>) ''run'' example_sheet
      = Inl (IOError msg)"
    by blast
  from a b 1 2 3 4 show ?thesis by blast
qed

section \<open>Direct counts\<close>

lemma zip_pairs_butlast: "odd (length xs) \<Longrightarrow> zip_pairs (butlast xs) = zip_pairs xs"
  by (induction xs rule: zip_pairs.induct) auto

lemma join_single_nonempty: "b \<noteq> [] \<Longrightarrow> join a [b] \<noteq> []"
  by simp

lemma choose_subdir_filtered:
  "choose_subdir run_dir project = Inr (join run_dir [project, ''filtered_sequences''])"
proof -
  have "join run_dir [''filtered_sequences''] \<noteq> []" by simp
  then show ?thesis unfolding choose_subdir_def by (rule if_P)
qed

lemma sort_butlast_sort:
  fixes xs :: "string list"
  shows "sort (butlast (sort xs)) = butlast (sort xs)"
proof (cases "xs = []")
  case True
  then show ?thesis by simp
next
  case False
  then have "sort xs \<noteq> []" by (metis length_sort length_0_conv)
  then have "sorted (butlast (sort xs))" by (simp add: sorted_butlast)
  then show ?thesis by (simp add: sorted_sort_id)
qed

lemma count_sequences_in_fastq_glob:
  "count_sequences_in_fastq (e\<lparr>fs_glob := g\<rparr>) p = count_sequences_in_fastq e p"
proof -
  have "try_variants (e\<lparr>fs_glob := g\<rparr>) p vs = try_variants e p vs" for vs
    by (induction vs) (simp_all split: sum.splits error.splits)
  then show ?thesis by (simp add: count_sequences_in_fastq_def)
qed

lemma pair_rows_glob: "pair_rows (e\<lparr>fs_glob := g\<rparr>) lane ps = pair_rows e lane ps"
  by (induction ps) (auto simp: count_sequences_in_fastq_glob split: option.splits sum.splits)

lemma zip_pairs_without_last:
  assumes "odd (length (fs_glob e pattern))"
  shows "zip_pairs (sort (fs_glob (without_last e pattern) q)) = zip_pairs (sort (fs_glob e q))"
proof (cases "q = pattern")
  case True
  from assms have "odd (length (sort (fs_glob e pattern)))" by simp
  then have "zip_pairs (butlast (sort (fs_glob e pattern))) = zip_pairs (sort (fs_glob e pattern))"
    by (rule zip_pairs_butlast)
  with True show ?thesis by (simp add: without_last_def sort_butlast_sort)
next
  case False
  then show ?thesis by (simp add: without_last_def)
qed

lemma direct_rows_without_last:
  assumes "odd (length (fs_glob e pattern))"
  shows "direct_rows (without_last e pattern) run_dir ps = direct_rows e run_dir ps"
proof (induction ps)
  case Nil
  then show ?case by simp
next
  case (Cons pl ps)
  obtain project lane where pl: "pl = (project, lane)" by (cases pl) auto
  have pr: "pair_rows (without_last e pattern) lane qs = pair_rows e lane qs" for qs
    unfolding without_last_def by (rule pair_rows_glob)
  show ?case
    unfolding pl direct_rows.simps Cons.IH zip_pairs_without_last [OF assms] pr ..
qed

text \<open>
  C10. When the glob of a lane returns an odd number of sequence files, the last file in
  sorted order is in no pair, and removing it from the glob changes nothing: the direct
  counts return the same table or raise the same error with or without it.
\<close>

theorem direct_sequence_counts_odd_glob:
  assumes "odd (length (fs_glob e pattern))"
  shows "zip_pairs (sort (fs_glob e pattern)) = zip_pairs (butlast (sort (fs_glob e pattern))) \<and>
         direct_sequence_counts (without_last e pattern) run_dir md =
           direct_sequence_counts e run_dir md"
proof -
  from assms have "odd (length (sort (fs_glob e pattern)))" by simp
  then have "zip_pairs (butlast (sort (fs_glob e pattern))) = zip_pairs (sort (fs_glob e pattern))"
    by (rule zip_pairs_butlast)
  moreover have "direct_sequence_counts (without_last e pattern) run_dir md =
           direct_sequence_counts e run_dir md"
    unfolding direct_sequence_counts_def direct_rows_without_last [OF assms] ..
  ultimately show ?thesis by simp
qed

theorem direct_sequence_counts_odd_glob_witness:
  "odd (length (fs_glob odd_glob_run ''run/P/filtered_sequences/*_L001_R?_001.trimmed.fastq.gz'')) \<and>
   direct_sequence_counts
     (without_last odd_glob_run ''run/P/filtered_sequences/*_L001_R?_001.trimmed.fastq.gz'')
     ''run'' example_sheet = direct_sequence_counts odd_glob_run ''run'' example_sheet \<and>
   direct_sequence_counts odd_glob_run ''run'' example_sheet = Inr [((''S1'', ''1''), 80)]"
proof -
  have o: "odd (length (fs_glob odd_glob_run
             ''run/P/filtered_sequences/*_L001_R?_001.trimmed.fastq.gz''))"
    by (simp add: odd_glob_run_def)
  have v: "direct_sequence_counts odd_glob_run ''run'' example_sheet = Inr [((''S1'', ''1''), 80)]"
    by code_simp
  from o v direct_sequence_counts_odd_glob [OF o, of "''run''" example_sheet]
  show ?thesis by simp
qed

text \<open>
  C3. The direct counts never look at the disk to choose the subdirectory: the test is on
  the joined path as a string, which is never empty, so \<^verbatim>\<open>filtered_sequences\<close> is
  always taken. In a run that holds only \<^verbatim>\<open>trimmed_sequences\<close> the sequence files are
  not found and the table is empty; in a run that holds neither directory the table is
  empty too and no error is raised.
\<close>

theorem direct_sequence_counts_subdir_not_probed:
  "choose_subdir ''run'' ''P'' = Inr ''run/P/filtered_sequences'' \<and>
   \<not> fs_exists trimmed_only_run ''run/P/filtered_sequences'' \<and>
   fs_exists trimmed_only_run ''run/P/trimmed_sequences'' \<and>
   fs_glob trimmed_only_run ''run/P/trimmed_sequences/*_L001_R?_001.trimmed.fastq.gz'' =
     [''run/P/trimmed_sequences/S1_S7_L001_R1_001.trimmed.fastq.gz'',
      ''run/P/trimmed_sequences/S1_S7_L001_R2_001.trimmed.fastq.gz''] \<and>
   direct_sequence_counts trimmed_only_run ''run'' example_sheet = Inr [] \<and>
   (\<forall>p. \<not> fs_exists no_sequences_run p) \<and>
   direct_sequence_counts no_sequences_run ''run'' example_sheet = Inr []"
proof -
  have 1: "choose_subdir ''run'' ''P'' = Inr ''run/P/filtered_sequences''"
    by (simp add: choose_subdir_filtered)
  have 2: "\<not> fs_exists trimmed_only_run ''run/P/filtered_sequences'' \<and>
     fs_exists trimmed_only_run ''run/P/trimmed_sequences'' \<and>
     fs_glob trimmed_only_run ''run/P/trimmed_sequences/*_L001_R?_001.trimmed.fastq.gz'' =
     [''run/P/trimmed_sequences/S1_S7_L001_R1_001.trimmed.fastq.gz'',
      ''run/P/trimmed_sequences/S1_S7_L001_R2_001.trimmed.fastq.gz'']"
    by (simp add: trimmed_only_run_def)
  have 3: "direct_sequence_counts trimmed_only_run ''run'' example_sheet = Inr []"
    by code_simp
  have 4: "\<forall>p. \<not> fs_exists no_sequences_run p"
    by (simp add: no_sequences_run_def)
  have 5: "direct_sequence_counts no_sequences_run ''run'' example_sheet = Inr []"
    by code_simp
  from 1 2 3 4 5 show ?thesis by simp
qed

section \<open>The log locator\<close>

lemma duplicated_from_any:
  "(\<exists>d \<in> set (duplicated_from seen ks). d) \<longleftrightarrow> (\<exists>k \<in> set ks. k \<in> set seen) \<or> \<not> distinct ks"
  by (induction ks arbitrary: seen) auto

lemma duplicated_any: "(\<exists>d \<in> set (duplicated ks). d) \<longleftrightarrow> \<not> distinct ks"
  by (simp add: duplicated_def duplicated_from_any)

lemma select_rows_Cons:
  "select_rows (b # bs) (r # rs) = (if b then r # select_rows bs rs else select_rows bs rs)"
  by (simp add: select_rows_def)

lemma select_rows_subset: "set (select_rows flags rows) \<subseteq> set rows"
  unfolding select_rows_def by (auto dest: set_zip_rightD)

lemma count_list_ge1: "1 \<le> count_list xs k \<longleftrightarrow> k \<in> set xs"
  using count_list_0_iff [of xs k] by auto

lemma select_rows_duplicated_from:
  "f ` set (select_rows (duplicated_from seen (map f rs)) rs) =
     {k \<in> set (map f rs). k \<in> set seen \<or> 2 \<le> count_list (map f rs) k}"
proof (induction rs arbitrary: seen)
  case Nil
  then show ?case by (simp add: select_rows_def)
next
  case (Cons r rs)
  have ih: "f ` set (select_rows (duplicated_from (f r # seen) (map f rs)) rs) =
     {k \<in> set (map f rs). k \<in> set (f r # seen) \<or> 2 \<le> count_list (map f rs) k}"
    by (rule Cons.IH)
  have c: "1 \<le> count_list (map f rs) (f r) \<longleftrightarrow> f r \<in> set (map f rs)"
    by (rule count_list_ge1)
  show ?case
  proof (cases "f r \<in> set seen")
    case True
    then show ?thesis
      using ih c by (auto simp: select_rows_Cons)
  next
    case False
    then show ?thesis
      using ih c by (auto simp: select_rows_Cons)
  qed
qed

lemma select_rows_duplicated:
  "f ` set (select_rows (duplicated (map f rs)) rs) = {k. 2 \<le> count_list (map f rs) k}"
proof -
  have "2 \<le> count_list (map f rs) k \<Longrightarrow> k \<in> set (map f rs)" for k
    using count_list_0_iff [of "map f rs" k] by (cases "k \<in> set (map f rs)") auto
  then show ?thesis
    unfolding duplicated_def select_rows_duplicated_from by auto
qed

lemma parsefier_sheet:
  assumes "locate_logs e run_dir subdir suffix (projects_of samples) = Inr out0"
  shows "parsefier e run_dir (KLSampleSheet samples) subdir suffix name funk =
     (if \<not> distinct (map row_key (retained samples out0))
      then ([], Inl (ValueError (duplicate_message
              (select_rows (duplicated (map row_key (retained samples out0)))
                 (retained samples out0)))))
      else (if proper_superset (expected_of samples) (found_ids out0)
            then [UserWarning (missing_message name
                    (set_difference (expected_of samples) (found_ids out0)))]
            else [],
            case apply_funk funk (retained samples out0) of
              Inl err \<Rightarrow> Inl err
            | Inr t \<Rightarrow> set_index t))"
  unfolding parsefier_def retained_def [symmetric] found_ids_def [symmetric]
  by (simp add: assms Let_def duplicated_any retained_def found_ids_def)

text \<open>
  C5. When the located logs all have a recognised filename and two or more of the retained
  rows have the same (Sample_ID, Lane), the call raises the error "Multiple matches found
  for the same samples in the same lane", whose message lists retained rows as
  "<sample> in lane <lane>"; the pairs listed are exactly the pairs that occur more than
  once. No table is returned.
\<close>

theorem parsefier_duplicate_match:
  assumes "locate_logs e run_dir subdir suffix (projects_of samples) = Inr out0"
    and "\<not> distinct (map row_key (retained samples out0))"
  shows "\<exists>rows.
           parsefier e run_dir (KLSampleSheet samples) subdir suffix name funk =
             ([], Inl (ValueError
                (''Multiple matches found for the same samples in the same lane, only one match is expected: ''
                  @ str_join '', ''
                      (map (\<lambda>r. fst (row_key r) @ '' in lane '' @ snd (row_key r)) rows)))) \<and>
           set rows \<subseteq> set (retained samples out0) \<and>
           row_key ` set rows = {k. 2 \<le> count_list (map row_key (retained samples out0)) k}"
proof -
  let ?rows = "select_rows (duplicated (map row_key (retained samples out0)))
                 (retained samples out0)"
  have "parsefier e run_dir (KLSampleSheet samples) subdir suffix name funk =
          ([], Inl (ValueError (duplicate_message ?rows)))"
    using assms(2) by (simp add: parsefier_sheet [OF assms(1)])
  moreover have "set ?rows \<subseteq> set (retained samples out0)" by (rule select_rows_subset)
  moreover have "row_key ` set ?rows = {k. 2 \<le> count_list (map row_key (retained samples out0)) k}"
    by (rule select_rows_duplicated)
  ultimately show ?thesis unfolding duplicate_message_def by blast
qed


theorem parsefier_duplicate_match_witness:
  "locate_logs duplicate_run ''run'' ''json'' ''.json'' (projects_of example_samples) =
     Inr [(''S1'', ''1'', ''P'', ''run/P/json/S1_S7_L001_R1_001.json''),
          (''S1'', ''1'', ''P'', ''run/P/json/S1_S8_L001_R1_001.json'')] \<and>
   \<not> distinct (map row_key (retained example_samples
     [(''S1'', ''1'', ''P'', ''run/P/json/S1_S7_L001_R1_001.json''),
      (''S1'', ''1'', ''P'', ''run/P/json/S1_S8_L001_R1_001.json'')])) \<and>
   (\<exists>rows.
      parsefier duplicate_run ''run'' (KLSampleSheet example_samples) ''json'' ''.json''
          ''total_biological_reads_r1r2'' (parse_fastp_counts duplicate_run) =
        ([], Inl (ValueError
           (''Multiple matches found for the same samples in the same lane, only one match is expected: ''
             @ str_join '', ''
                 (map (\<lambda>r. fst (row_key r) @ '' in lane '' @ snd (row_key r)) rows)))) \<and>
      set rows \<subseteq> set (retained example_samples
         [(''S1'', ''1'', ''P'', ''run/P/json/S1_S7_L001_R1_001.json''),
          (''S1'', ''1'', ''P'', ''run/P/json/S1_S8_L001_R1_001.json'')]) \<and>
      row_key ` set rows = {k. 2 \<le> count_list (map row_key (retained example_samples
         [(''S1'', ''1'', ''P'', ''run/P/json/S1_S7_L001_R1_001.json''),
          (''S1'', ''1'', ''P'', ''run/P/json/S1_S8_L001_R1_001.json'')])) k}) \<and>
   fastp_counts duplicate_run ''run'' example_sheet =
     ([], Inl (ValueError
       ''Multiple matches found for the same samples in the same lane, only one match is expected: S1 in lane 1''))"
proof -
  let ?out0 = "[(''S1'', ''1'', ''P'', ''run/P/json/S1_S7_L001_R1_001.json''),
                (''S1'', ''1'', ''P'', ''run/P/json/S1_S8_L001_R1_001.json'')]"
  have l: "locate_logs duplicate_run ''run'' ''json'' ''.json'' (projects_of example_samples) =
     Inr ?out0"
    by code_simp
  have d: "\<not> distinct (map row_key (retained example_samples ?out0))"
    by code_simp
  have v: "fastp_counts duplicate_run ''run'' example_sheet =
     ([], Inl (ValueError
       ''Multiple matches found for the same samples in the same lane, only one match is expected: S1 in lane 1''))"
    by code_simp
  note ex = parsefier_duplicate_match [OF l d, of "''total_biological_reads_r1r2''"
      "parse_fastp_counts duplicate_run"]
  show ?thesis
    by (rule conjI [OF l conjI [OF d conjI [OF ex v]]])
qed

lemma proper_superset_iff:
  "proper_superset xs ys \<longleftrightarrow> set ys \<subseteq> set xs \<and> \<not> set xs \<subseteq> set ys"
  by (auto simp: proper_superset_def)

lemma set_set_difference: "set (set_difference xs ys) = set xs - set ys"
  by (auto simp: set_difference_def)

lemma apply_funk_keys: "apply_funk funk rs = Inr t \<Longrightarrow> map fst t = map row_key rs"
  by (induction rs arbitrary: t) (auto split: sum.splits)

lemma apply_funk_total:
  "(\<forall>r \<in> set rs. \<exists>v. funk (row_path r) = Inr v) \<Longrightarrow> \<exists>t. apply_funk funk rs = Inr t"
  by (induction rs) (auto split: sum.splits)

lemma apply_funk_set_index:
  assumes "distinct (map row_key rs)"
  shows "(case apply_funk funk rs of Inl err \<Rightarrow> Inl err | Inr t \<Rightarrow> set_index t) = apply_funk funk rs"
proof (cases "apply_funk funk rs")
  case (Inl err)
  then show ?thesis by simp
next
  case (Inr t)
  with assms apply_funk_keys [OF Inr] show ?thesis by (simp add: set_index_def)
qed

text \<open>
  C2 (amended). Let the located logs all have a recognised filename and let no
  (Sample_ID, Lane) occur twice among the retained rows. If every Sample_ID found is in
  the sheet and some Sample_ID of the sheet was not found in any lane, one warning
  "No <name> log found for these samples" is emitted, naming exactly the Sample_IDs of the
  sheet that were not found. A missing log raises nothing: the outcome of the call is the
  outcome of the count parser on the retained rows, and when the parser succeeds on each of
  them the table returned has exactly their keys, so a (sample, lane) without a log has no
  row.
\<close>

theorem parsefier_missing_log:
  assumes "locate_logs e run_dir subdir suffix (projects_of samples) = Inr out0"
    and "distinct (map row_key (retained samples out0))"
  shows "(set (found_ids out0) \<subseteq> set (expected_of samples) \<and>
          \<not> set (expected_of samples) \<subseteq> set (found_ids out0) \<longrightarrow>
            (\<exists>missing.
               fst (parsefier e run_dir (KLSampleSheet samples) subdir suffix name funk) =
                 [UserWarning (''No '' @ name @ '' log found for these samples: ''
                    @ str_join '', '' missing)] \<and>
               set missing = set (expected_of samples) - set (found_ids out0))) \<and>
         snd (parsefier e run_dir (KLSampleSheet samples) subdir suffix name funk) =
           apply_funk funk (retained samples out0) \<and>
         ((\<forall>r \<in> set (retained samples out0). \<exists>v. funk (row_path r) = Inr v) \<longrightarrow>
            (\<exists>t. snd (parsefier e run_dir (KLSampleSheet samples) subdir suffix name funk) = Inr t \<and>
                 map fst t = map row_key (retained samples out0) \<and>
                 (\<forall>k. k \<notin> row_key ` set out0 \<longrightarrow> k \<notin> fst ` set t)))"
proof -
  let ?p = "parsefier e run_dir (KLSampleSheet samples) subdir suffix name funk"
  have p: "?p =
      (if proper_superset (expected_of samples) (found_ids out0)
       then [UserWarning (missing_message name
               (set_difference (expected_of samples) (found_ids out0)))]
       else [],
       apply_funk funk (retained samples out0))"
    using assms(2) by (simp add: parsefier_sheet [OF assms(1)] apply_funk_set_index)
  have w: "\<exists>missing. fst ?p =
                 [UserWarning (''No '' @ name @ '' log found for these samples: ''
                    @ str_join '', '' missing)] \<and>
               set missing = set (expected_of samples) - set (found_ids out0)"
    if "set (found_ids out0) \<subseteq> set (expected_of samples) \<and>
          \<not> set (expected_of samples) \<subseteq> set (found_ids out0)"
  proof -
    from that have "proper_superset (expected_of samples) (found_ids out0)"
      by (simp add: proper_superset_iff)
    then have f: "fst ?p = [UserWarning (''No '' @ name @ '' log found for these samples: ''
                    @ str_join '', '' (set_difference (expected_of samples) (found_ids out0)))]"
      by (simp add: p missing_message_def)
    show ?thesis
      by (rule exI [of _ "set_difference (expected_of samples) (found_ids out0)"])
        (rule conjI [OF f set_set_difference])
  qed
  have s: "snd ?p = apply_funk funk (retained samples out0)" by (simp add: p)
  have t: "\<exists>t. snd ?p = Inr t \<and> map fst t = map row_key (retained samples out0) \<and>
                 (\<forall>k. k \<notin> row_key ` set out0 \<longrightarrow> k \<notin> fst ` set t)"
    if "\<forall>r \<in> set (retained samples out0). \<exists>v. funk (row_path r) = Inr v"
  proof -
    from apply_funk_total [OF that] obtain t where t: "apply_funk funk (retained samples out0) = Inr t"
      by blast
    from apply_funk_keys [OF t] have k: "map fst t = map row_key (retained samples out0)" .
    have "set (map fst t) = set (map row_key (retained samples out0))"
      by (simp only: k)
    then have "fst ` set t = row_key ` set (retained samples out0)"
      by (simp only: set_map)
    moreover have "set (retained samples out0) \<subseteq> set out0"
      by (simp add: retained_def)
    ultimately have "fst ` set t \<subseteq> row_key ` set out0"
      by (simp add: image_mono)
    then have a: "\<forall>k. k \<notin> row_key ` set out0 \<longrightarrow> k \<notin> fst ` set t"
      by (meson subsetD)
    from s t have b: "snd ?p = Inr t" by (simp only:)
    show ?thesis
      by (rule exI [of _ t]) (rule conjI [OF b conjI [OF k a]])
  qed
  show ?thesis
    by (rule conjI [OF impI [OF w] conjI [OF s impI [OF t]]])
qed

theorem parsefier_missing_log_witness:
  "locate_logs example_run ''run'' ''json'' ''.json'' (projects_of two_samples) =
     Inr [(''S1'', ''1'', ''P'', ''run/P/json/S1_S7_L001_R1_001.json'')] \<and>
   distinct (map row_key (retained two_samples
     [(''S1'', ''1'', ''P'', ''run/P/json/S1_S7_L001_R1_001.json'')])) \<and>
   (set (found_ids [(''S1'', ''1'', ''P'', ''run/P/json/S1_S7_L001_R1_001.json'')])
      \<subseteq> set (expected_of two_samples) \<and>
    \<not> set (expected_of two_samples)
      \<subseteq> set (found_ids [(''S1'', ''1'', ''P'', ''run/P/json/S1_S7_L001_R1_001.json'')])) \<and>
   retained two_samples [(''S1'', ''1'', ''P'', ''run/P/json/S1_S7_L001_R1_001.json'')] =
     [(''S1'', ''1'', ''P'', ''run/P/json/S1_S7_L001_R1_001.json'')] \<and>
   parse_fastp_counts example_run ''run/P/json/S1_S7_L001_R1_001.json'' = Inr 90 \<and>
   (\<exists>missing.
      fst (parsefier example_run ''run'' (KLSampleSheet two_samples) ''json'' ''.json''
             ''total_biological_reads_r1r2'' (parse_fastp_counts example_run)) =
        [UserWarning (''No '' @ ''total_biological_reads_r1r2''
           @ '' log found for these samples: '' @ str_join '', '' missing)] \<and>
      set missing = set (expected_of two_samples)
        - set (found_ids [(''S1'', ''1'', ''P'', ''run/P/json/S1_S7_L001_R1_001.json'')])) \<and>
   (\<exists>t.
      snd (parsefier example_run ''run'' (KLSampleSheet two_samples) ''json'' ''.json''
             ''total_biological_reads_r1r2'' (parse_fastp_counts example_run)) = Inr t \<and>
      map fst t = map row_key (retained two_samples
        [(''S1'', ''1'', ''P'', ''run/P/json/S1_S7_L001_R1_001.json'')]) \<and>
      (\<forall>k. k \<notin> row_key ` set [(''S1'', ''1'', ''P'', ''run/P/json/S1_S7_L001_R1_001.json'')]
         \<longrightarrow> k \<notin> fst ` set t)) \<and>
   fastp_counts example_run ''run'' (KLSampleSheet two_samples) =
     ([UserWarning ''No total_biological_reads_r1r2 log found for these samples: S2''],
      Inr [((''S1'', ''1''), 90)])"
proof -
  let ?out0 = "[(''S1'', ''1'', ''P'', ''run/P/json/S1_S7_L001_R1_001.json'')]"
  have l: "locate_logs example_run ''run'' ''json'' ''.json'' (projects_of two_samples) = Inr ?out0"
    by code_simp
  have d: "distinct (map row_key (retained two_samples ?out0))"
    by code_simp
  have h1: "set (found_ids ?out0) \<subseteq> set (expected_of two_samples) \<and>
    \<not> set (expected_of two_samples) \<subseteq> set (found_ids ?out0)"
    by code_simp
  have r: "retained two_samples ?out0 = ?out0" by code_simp
  have f: "parse_fastp_counts example_run ''run/P/json/S1_S7_L001_R1_001.json'' = Inr 90"
    by code_simp
  have h2: "\<forall>r \<in> set (retained two_samples ?out0).
      \<exists>v. parse_fastp_counts example_run (row_path r) = Inr v"
    unfolding r by (simp add: row_path_def f)
  have v: "fastp_counts example_run ''run'' (KLSampleSheet two_samples) =
     ([UserWarning ''No total_biological_reads_r1r2 log found for these samples: S2''],
      Inr [((''S1'', ''1''), 90)])"
    by code_simp
  note th = parsefier_missing_log [OF l d, of "''total_biological_reads_r1r2''"
      "parse_fastp_counts example_run"]
  note c1 = th [THEN conjunct1, THEN mp, OF h1]
  note c3 = th [THEN conjunct2, THEN conjunct2, THEN mp, OF h2]
  show ?thesis
    by (rule conjI [OF l conjI [OF d conjI [OF h1 conjI [OF r conjI [OF f
          conjI [OF c1 conjI [OF c3 v]]]]]]])
qed

text \<open>
  Without the amendment the statement fails on two sheets: S1 is listed in lanes 1 and 2 and has a log in
  lane 1 only, and S2 has no log while a log of S3, a sample outside the sheet, is present.
  In both a sample of the sheet has no log in its lane and no warning is emitted.
\<close>

theorem parsefier_missing_log_counterexample:
  "(''S1'', ''2'') \<in> set (map (\<lambda>s. (Sample_ID s, Lane s)) two_lanes) \<and>
   fs_glob example_run ''run/P/json/*_L002_R1_001.json'' = [] \<and>
   fastp_counts example_run ''run'' (KLSampleSheet two_lanes) =
     ([], Inr [((''S1'', ''1''), 90)]) \<and>
   (''S2'', ''1'') \<in> set (map (\<lambda>s. (Sample_ID s, Lane s)) two_samples) \<and>
   fs_glob stray_run ''run/P/json/*_L001_R1_001.json'' =
     [''run/P/json/S1_S7_L001_R1_001.json'', ''run/P/json/S3_S9_L001_R1_001.json''] \<and>
   fastp_counts stray_run ''run'' (KLSampleSheet two_samples) =
     ([], Inr [((''S1'', ''1''), 90)])"
proof -
  have 1: "(''S1'', ''2'') \<in> set (map (\<lambda>s. (Sample_ID s, Lane s)) two_lanes)"
    by (simp add: two_lanes_def)
  have 2: "fs_glob example_run ''run/P/json/*_L002_R1_001.json'' = []"
    by (simp add: example_run_def)
  have 3: "fastp_counts example_run ''run'' (KLSampleSheet two_lanes) =
     ([], Inr [((''S1'', ''1''), 90)])"
    by code_simp
  have 4: "(''S2'', ''1'') \<in> set (map (\<lambda>s. (Sample_ID s, Lane s)) two_samples)"
    by (simp add: two_samples_def)
  have 5: "fs_glob stray_run ''run/P/json/*_L001_R1_001.json'' =
     [''run/P/json/S1_S7_L001_R1_001.json'', ''run/P/json/S3_S9_L001_R1_001.json'']"
    by (simp add: stray_run_def)
  have 6: "fastp_counts stray_run ''run'' (KLSampleSheet two_samples) =
     ([], Inr [((''S1'', ''1''), 90)])"
    by code_simp
  show ?thesis
    by (rule conjI [OF 1 conjI [OF 2 conjI [OF 3 conjI [OF 4 conjI [OF 5 6]]]]])
qed

section \<open>The run aggregator\<close>

lemma fillna_cell_of: "fillna ''NA'' (cell_of t k) = na_cell (map_of t k)"
  by (simp add: fillna_def cell_of_def na_cell_def split: option.splits)

lemma fillna_truediv:
  "fillna ''NA'' (truediv (cell_of t k) (cell_of u k)) = fraction_cell (map_of t k) (map_of u k)"
  by (simp add: fillna_def cell_of_def fraction_cell_def split: option.splits)

lemma fillna_truediv_raw:
  "fillna ''NA'' (truediv (cell_of t k) (Finite raw)) = fraction_cell (map_of t k) (Some raw)"
  by (simp add: fillna_def cell_of_def fraction_cell_def split: option.splits)

lemma joined_row_cells:
  "joined_row fastp minimap direct (k, raw) =
     (k, \<lparr>raw_reads_r1r2 = Float (Finite raw),
          total_biological_reads_r1r2 = na_cell (map_of fastp k),
          non_host_reads = na_cell (map_of minimap k),
          quality_filtered_reads_r1r2 = na_cell (map_of direct k),
          fraction_passing_quality_filter = fraction_cell (map_of direct k) (Some raw),
          fraction_non_human = fraction_cell (map_of minimap k) (map_of direct k)\<rparr>)"
  unfolding joined_row_def Let_def fst_conv snd_conv fillna_cell_of fillna_truediv
    fillna_truediv_raw
  by (simp add: fillna_def)

lemma run_counts_Inr:
  assumes "run_counts e run_dir md = (ws, Inr out)"
  shows "\<exists>demux fastp minimap direct.
           bcl2fastq_counts e run_dir md = Inr demux \<and>
           snd (fastp_counts e run_dir md) = Inr fastp \<and>
           snd (minimap2_counts e run_dir md) = Inr minimap \<and>
           direct_sequence_counts e run_dir md = Inr direct \<and>
           out = map (joined_row fastp minimap direct) demux"
  using assms unfolding run_counts_def
  by (auto split: sum.splits prod.splits)

text \<open>
  C1 (amended). Every row of the table that \<^verbatim>\<open>run_counts\<close> returns comes from a row
  of the demultiplex table, and a cell that is missing from a joined table reads "NA". The
  cell \<^verbatim>\<open>fraction_passing_quality_filter\<close> is the quotient of
  \<^verbatim>\<open>quality_filtered_reads_r1r2\<close> by \<^verbatim>\<open>raw_reads_r1r2\<close> when the numerator is
  present and the denominator is not zero; it is "NA" when the numerator is missing or
  when both are zero; and when the denominator is zero and the numerator is not, it is an
  infinity, which \<^verbatim>\<open>fillna\<close> leaves in place.
\<close>

theorem run_counts_fractions:
  assumes "run_counts e run_dir md = (ws, Inr out)" and "(k, row) \<in> set out"
  shows "\<exists>demux fastp minimap direct raw.
           bcl2fastq_counts e run_dir md = Inr demux \<and>
           snd (fastp_counts e run_dir md) = Inr fastp \<and>
           snd (minimap2_counts e run_dir md) = Inr minimap \<and>
           direct_sequence_counts e run_dir md = Inr direct \<and>
           (k, raw) \<in> set demux \<and>
           raw_reads_r1r2 row = Float (Finite raw) \<and>
           total_biological_reads_r1r2 row = na_cell (map_of fastp k) \<and>
           non_host_reads row = na_cell (map_of minimap k) \<and>
           quality_filtered_reads_r1r2 row = na_cell (map_of direct k) \<and>
           fraction_passing_quality_filter row =
             (case map_of direct k of
                None \<Rightarrow> Str ''NA''
              | Some q \<Rightarrow>
                  if raw \<noteq> 0 then Float (Finite (q / raw))
                  else if q = 0 then Str ''NA''
                  else if 0 < q then Float PInf else Float NInf) \<and>
           fraction_non_human row = fraction_cell (map_of minimap k) (map_of direct k)"
proof -
  from run_counts_Inr [OF assms(1)] obtain demux fastp minimap direct where
    a: "bcl2fastq_counts e run_dir md = Inr demux"
    and b: "snd (fastp_counts e run_dir md) = Inr fastp"
    and c: "snd (minimap2_counts e run_dir md) = Inr minimap"
    and d: "direct_sequence_counts e run_dir md = Inr direct"
    and o: "out = map (joined_row fastp minimap direct) demux"
    by blast
  from assms(2) o obtain kv where kv: "kv \<in> set demux"
    and j: "(k, row) = joined_row fastp minimap direct kv"
    by auto
  obtain k' raw where kv': "kv = (k', raw)" by (cases kv) auto
  from j have k: "k' = k" and row: "row = snd (joined_row fastp minimap direct (k, raw))"
    unfolding kv' joined_row_cells by simp_all
  have cells: "raw_reads_r1r2 row = Float (Finite raw) \<and>
           total_biological_reads_r1r2 row = na_cell (map_of fastp k) \<and>
           non_host_reads row = na_cell (map_of minimap k) \<and>
           quality_filtered_reads_r1r2 row = na_cell (map_of direct k) \<and>
           fraction_passing_quality_filter row =
             (case map_of direct k of
                None \<Rightarrow> Str ''NA''
              | Some q \<Rightarrow>
                  if raw \<noteq> 0 then Float (Finite (q / raw))
                  else if q = 0 then Str ''NA''
                  else if 0 < q then Float PInf else Float NInf) \<and>
           fraction_non_human row = fraction_cell (map_of minimap k) (map_of direct k)"
    unfolding row joined_row_cells
    by (simp add: fraction_cell_def split: option.splits)
  from kv kv' k have m: "(k, raw) \<in> set demux" by simp
  show ?thesis
    apply (rule exI [of _ demux], rule exI [of _ fastp], rule exI [of _ minimap],
        rule exI [of _ direct], rule exI [of _ raw])
    apply (rule conjI [OF a conjI [OF b conjI [OF c conjI [OF d conjI [OF m cells]]]]])
    done
qed

theorem run_counts_fractions_witness:
  "run_counts example_run ''run'' example_sheet =
     ([], Inr [((''S1'', ''1''),
        \<lparr>raw_reads_r1r2 = Float (Finite 200),
           total_biological_reads_r1r2 = Float (Finite 90),
           non_host_reads = Float (Finite 20),
           quality_filtered_reads_r1r2 = Float (Finite 80),
           fraction_passing_quality_filter = Float (Finite (2 / 5)),
           fraction_non_human = Float (Finite (1 / 4))\<rparr>)]) \<and>
   (\<exists>demux direct raw.
      bcl2fastq_counts example_run ''run'' example_sheet = Inr demux \<and>
      direct_sequence_counts example_run ''run'' example_sheet = Inr direct \<and>
      ((''S1'', ''1''), raw) \<in> set demux \<and>
      Float (Finite (2 / 5)) =
        (case map_of direct (''S1'', ''1'') of
           None \<Rightarrow> Str ''NA''
         | Some q \<Rightarrow>
             if raw \<noteq> 0 then Float (Finite (q / raw))
             else if q = 0 then Str ''NA''
             else if 0 < q then Float PInf else Float NInf))"
proof -
  let ?row = "\<lparr>raw_reads_r1r2 = Float (Finite 200),
           total_biological_reads_r1r2 = Float (Finite 90),
           non_host_reads = Float (Finite 20),
           quality_filtered_reads_r1r2 = Float (Finite 80),
           fraction_passing_quality_filter = Float (Finite (2 / 5)),
           fraction_non_human = Float (Finite (1 / 4))\<rparr>"
  have v: "run_counts example_run ''run'' example_sheet = ([], Inr [((''S1'', ''1''), ?row)])"
    by code_simp
  have m: "((''S1'', ''1''), ?row) \<in> set [((''S1'', ''1''), ?row)]"
    by simp
  from run_counts_fractions [OF v m]
  obtain demux fastp minimap direct raw where
    a: "bcl2fastq_counts example_run ''run'' example_sheet = Inr demux"
    and d: "direct_sequence_counts example_run ''run'' example_sheet = Inr direct"
    and r: "((''S1'', ''1''), raw) \<in> set demux"
    and f: "fraction_passing_quality_filter ?row =
        (case map_of direct (''S1'', ''1'') of
           None \<Rightarrow> Str ''NA''
         | Some q \<Rightarrow>
             if raw \<noteq> 0 then Float (Finite (q / raw))
             else if q = 0 then Str ''NA''
             else if 0 < q then Float PInf else Float NInf)"
    by (elim exE conjE)
  from f have f': "Float (Finite (2 / 5)) =
        (case map_of direct (''S1'', ''1'') of
           None \<Rightarrow> Str ''NA''
         | Some q \<Rightarrow>
             if raw \<noteq> 0 then Float (Finite (q / raw))
             else if q = 0 then Str ''NA''
             else if 0 < q then Float PInf else Float NInf)"
    by (simp only: count_row.simps)
  show ?thesis
    apply (rule conjI [OF v])
    apply (rule exI [of _ demux], rule exI [of _ direct], rule exI [of _ raw])
    apply (rule conjI [OF a conjI [OF d conjI [OF r f']]])
    done
qed

text \<open>
  Without the amendment the statement fails when the demultiplex report gives zero reads
  for a sample whose sequence files hold records: the fraction is an infinity and is not
  replaced.
\<close>

theorem run_counts_fractions_counterexample:
  "run_counts zero_raw_run ''run'' example_sheet =
     ([], Inr [((''S1'', ''1''),
        \<lparr>raw_reads_r1r2 = Float (Finite 0),
           total_biological_reads_r1r2 = Float (Finite 90),
           non_host_reads = Float (Finite 20),
           quality_filtered_reads_r1r2 = Float (Finite 80),
           fraction_passing_quality_filter = Float PInf,
           fraction_non_human = Float (Finite (1 / 4))\<rparr>)])"
  by code_simp

end
